theory Spec2Isabelle
  imports Main
begin

section \<open>Record model (packages/server/src/types.ts)\<close>

text \<open>
  \<^verbatim>\<open>ServerFetchLog\<close>: the record the server-side interceptor hands to the session store.
  JavaScript numbers that hold millisecond clock readings, HTTP status codes and durations
  are integers here. A \<^verbatim>\<open>Record<string, string>\<close> is a list of name/value pairs.
  The optional field \<^verbatim>\<open>error\<close> is \<open>None\<close> when the property is absent.
  The field \<^verbatim>\<open>id\<close> is called \<open>log_id\<close> (\<open>id\<close> is the identity function of HOL)
  and the field \<^verbatim>\<open>method\<close> is called \<open>http_method\<close> (a keyword of Isabelle).
\<close>

record ServerFetchLog =
  log_id :: string
  sessionId :: string
  timestamp :: int
  http_method :: string
  url :: string
  requestHeaders :: "(string \<times> string) list"
  requestBody :: "string option"
  status :: int
  statusText :: string
  responseHeaders :: "(string \<times> string) list"
  responseBody :: "string option"
  duration :: int
  error :: "string option"

text \<open>
  A subscriber callback is a JavaScript function object. The store only compares callbacks
  by identity (membership in a \<^verbatim>\<open>Set\<close>) and calls them, so a callback is its identity,
  a natural number, and calling it appends the pair (callback, argument) to the trace
  \<open>delivered\<close> of the store: the trace is the order in which callbacks were invoked.
  In the operations of the store, callbacks are taken to return normally and not to call
  back into the store, which is what the streaming endpoint's \<^verbatim>\<open>send\<close> does on an open
  channel. What a throwing callback does to \<^verbatim>\<open>addLog\<close> and to the interceptor that
  calls it is modelled with the interceptor (\<open>addLog_with\<close>, \<open>netviewFetch_with\<close>).
\<close>

type_synonym callback = nat

text \<open>
  \<^verbatim>\<open>SessionBuffer\<close>. A JavaScript \<^verbatim>\<open>Set\<close> iterates in insertion order and holds
  no duplicates: \<open>subscribers\<close> is a list in insertion order. \<open>buf_id\<close> is the identity of
  the buffer object: the closure returned by \<^verbatim>\<open>subscribe\<close> captures the object, not the
  session id, so the model has to tell a buffer from a later one created under the same id.
\<close>

record SessionBuffer =
  buf_id :: nat
  logs :: "ServerFetchLog list"
  lastAccess :: int
  subscribers :: "callback list"

text \<open>
  A JavaScript number as far as the store compares it with the length of an array. A finite
  double is \<open>m / 2 ^ k\<close> for an integer \<open>m\<close> and a natural number \<open>k\<close>: \<open>Finite m k\<close>;
  an integer \<open>n\<close> is \<open>Finite n 0\<close>, and 2.5 is \<open>Finite 5 1\<close>. The other values are the two
  infinities and \<^verbatim>\<open>NaN\<close>.
\<close>

datatype number = Finite int nat | PosInfinity | NegInfinity | NaN

text \<open>
  \<^verbatim>\<open>length >= n\<close> for the length of an array: every comparison with \<^verbatim>\<open>NaN\<close> is false.
\<close>

fun length_ge :: "nat \<Rightarrow> number \<Rightarrow> bool" where
  "length_ge len (Finite m k) = (int len * 2 ^ k \<ge> m)"
| "length_ge len PosInfinity = False"
| "length_ge len NegInfinity = True"
| "length_ge len NaN = False"

text \<open>
  \<^verbatim>\<open>NetViewOptions\<close>: every option may be absent. \<^verbatim>\<open>maxLogsPerSession\<close> is any number,
  the code does not validate it; \<^verbatim>\<open>ttlSeconds\<close> is taken as an integer number of seconds.
\<close>

record NetViewOptions =
  opt_maxLogsPerSession :: "number option"
  opt_ttlSeconds :: "int option"
  opt_debug :: "bool option"

section \<open>Session store (packages/server/src/store.ts)\<close>

text \<open>
  The state of a \<^verbatim>\<open>SessionStore\<close>: the \<^verbatim>\<open>Map\<close> of sessions, the two configuration
  values, the next fresh buffer identity, and the trace of callback invocations.
  \<^verbatim>\<open>Date.now()\<close> is an input of every operation that reads the clock.
\<close>

record SessionStore =
  sessions :: "string \<rightharpoonup> SessionBuffer"
  maxLogsPerSession :: number
  ttlMs :: int
  next_buf :: nat
  delivered :: "(callback \<times> ServerFetchLog) list"

definition DEFAULT_MAX_LOGS :: number where
  "DEFAULT_MAX_LOGS = Finite 100 0"

definition DEFAULT_TTL_SECONDS :: int where
  "DEFAULT_TTL_SECONDS = 60"

text \<open>The constructor (lines 12-16); the interval timer it starts is the operation \<open>sweep\<close> below.\<close>

definition new_store :: "NetViewOptions \<Rightarrow> SessionStore" where
  "new_store options =
     \<lparr> sessions = Map.empty,
       maxLogsPerSession = (case opt_maxLogsPerSession options of None \<Rightarrow> DEFAULT_MAX_LOGS | Some n \<Rightarrow> n),
       ttlMs = (case opt_ttlSeconds options of None \<Rightarrow> DEFAULT_TTL_SECONDS | Some s \<Rightarrow> s) * 1000,
       next_buf = 0,
       delivered = [] \<rparr>"

text \<open>
  The body of the interval callback of \<^verbatim>\<open>startCleanup\<close> (lines 20-27), run at clock
  reading \<open>now\<close>: every session whose buffer satisfies \<^verbatim>\<open>now - buffer.lastAccess > this.ttlMs\<close>
  is deleted from the map, every other entry stays as it is.
\<close>

definition expired :: "SessionStore \<Rightarrow> int \<Rightarrow> SessionBuffer \<Rightarrow> bool" where
  "expired st now buffer \<longleftrightarrow> now - lastAccess buffer > ttlMs st"

definition sweep :: "int \<Rightarrow> SessionStore \<Rightarrow> SessionStore" where
  "sweep now st =
     st\<lparr> sessions := (\<lambda>sid. case sessions st sid of
                         None \<Rightarrow> None
                       | Some buffer \<Rightarrow> if expired st now buffer then None else Some buffer) \<rparr>"

text \<open>
  \<^verbatim>\<open>getOrCreateSession\<close> (lines 30-42). The buffer is an object shared with the map, so
  the write to \<^verbatim>\<open>buffer.lastAccess\<close> is a write to the map's entry; the function returns
  the buffer together with the store that holds it.
\<close>

definition getOrCreateSession :: "string \<Rightarrow> int \<Rightarrow> SessionStore \<Rightarrow> SessionBuffer \<times> SessionStore" where
  "getOrCreateSession sid now st =
     (case sessions st sid of
        None \<Rightarrow>
          (let buffer = \<lparr> buf_id = next_buf st, logs = [], lastAccess = now, subscribers = [] \<rparr>;
               buffer = buffer\<lparr> lastAccess := now \<rparr>
           in (buffer, st\<lparr> sessions := (sessions st)(sid \<mapsto> buffer), next_buf := Suc (next_buf st) \<rparr>))
      | Some buffer \<Rightarrow>
          (let buffer = buffer\<lparr> lastAccess := now \<rparr>
           in (buffer, st\<lparr> sessions := (sessions st)(sid \<mapsto> buffer) \<rparr>)))"

text \<open>The loop \<^verbatim>\<open>for (const subscriber of buffer.subscribers) subscriber(log)\<close>.\<close>

primrec notify :: "callback list \<Rightarrow> ServerFetchLog \<Rightarrow> (callback \<times> ServerFetchLog) list \<Rightarrow> (callback \<times> ServerFetchLog) list" where
  "notify [] log trace = trace"
| "notify (subscriber # rest) log trace = notify rest log (trace @ [(subscriber, log)])"

text \<open>The loop \<^verbatim>\<open>for (const log of buffer.logs) callback(log)\<close>.\<close>

primrec replay :: "callback \<Rightarrow> ServerFetchLog list \<Rightarrow> (callback \<times> ServerFetchLog) list \<Rightarrow> (callback \<times> ServerFetchLog) list" where
  "replay cb [] trace = trace"
| "replay cb (log # rest) trace = replay cb rest (trace @ [(cb, log)])"

text \<open>
  \<^verbatim>\<open>addLog\<close> (lines 44-58). \<^verbatim>\<open>Array.prototype.shift\<close> removes the first element and
  does nothing on an empty array, as \<open>tl\<close> does.
\<close>

definition addLog :: "string \<Rightarrow> ServerFetchLog \<Rightarrow> int \<Rightarrow> SessionStore \<Rightarrow> SessionStore" where
  "addLog sid log now st =
     (let (buffer, st) = getOrCreateSession sid now st;
          buffer = (if length_ge (length (logs buffer)) (maxLogsPerSession st)
                    then buffer\<lparr> logs := tl (logs buffer) \<rparr> else buffer);
          buffer = buffer\<lparr> logs := logs buffer @ [log] \<rparr>;
          st = st\<lparr> sessions := (sessions st)(sid \<mapsto> buffer) \<rparr>
      in st\<lparr> delivered := notify (subscribers buffer) log (delivered st) \<rparr>)"

text \<open>
  \<^verbatim>\<open>subscribe\<close> (lines 60-76). \<^verbatim>\<open>Set.prototype.add\<close> appends the callback unless it
  is a member already. The returned closure is a handle: the session id under which the
  buffer was found, the identity of the buffer, and the callback.
\<close>

record handle =
  h_session :: string
  h_buf :: nat
  h_cb :: callback

definition subscribe :: "string \<Rightarrow> callback \<Rightarrow> int \<Rightarrow> SessionStore \<Rightarrow> handle \<times> SessionStore" where
  "subscribe sid cb now st =
     (let (buffer, st) = getOrCreateSession sid now st;
          buffer = (if cb \<in> set (subscribers buffer) then buffer
                    else buffer\<lparr> subscribers := subscribers buffer @ [cb] \<rparr>);
          st = st\<lparr> sessions := (sessions st)(sid \<mapsto> buffer) \<rparr>;
          st = st\<lparr> delivered := replay cb (logs buffer) (delivered st) \<rparr>
      in (\<lparr> h_session = sid, h_buf = buf_id buffer, h_cb = cb \<rparr>, st))"

text \<open>
  Calling the closure returned by \<^verbatim>\<open>subscribe\<close>: \<^verbatim>\<open>buffer.subscribers.delete(callback)\<close>
  on the captured buffer. A buffer object is only ever stored under the session id it was
  created for, so it is in the map exactly when the entry of that id has its identity.
  When the captured buffer has left the map (swept or cleared), the deletion changes an
  object the store no longer reaches, and the store is unchanged.
\<close>

definition unsubscribe :: "handle \<Rightarrow> SessionStore \<Rightarrow> SessionStore" where
  "unsubscribe h st =
     (case sessions st (h_session h) of
        None \<Rightarrow> st
      | Some buffer \<Rightarrow>
          if buf_id buffer = h_buf h
          then st\<lparr> sessions := (sessions st)(h_session h \<mapsto>
                      buffer\<lparr> subscribers := removeAll (h_cb h) (subscribers buffer) \<rparr>) \<rparr>
          else st)"

text \<open>\<^verbatim>\<open>getBufferedLogs\<close> (lines 78-80): \<^verbatim>\<open>this.sessions.get(sessionId)?.logs ?? []\<close>.\<close>

definition getBufferedLogs :: "string \<Rightarrow> SessionStore \<Rightarrow> ServerFetchLog list" where
  "getBufferedLogs sid st = (case sessions st sid of None \<Rightarrow> [] | Some buffer \<Rightarrow> logs buffer)"

text \<open>\<^verbatim>\<open>destroy\<close> (lines 82-87): the timer is cleared and the map emptied.\<close>

definition destroy :: "SessionStore \<Rightarrow> SessionStore" where
  "destroy st = st\<lparr> sessions := Map.empty \<rparr>"

text \<open>
  The operations a store receives, each with the clock reading at which it runs. A call
  of \<^verbatim>\<open>getBufferedLogs\<close> writes nothing, so its step leaves the store as it is.
\<close>

datatype op =
    AddLog string ServerFetchLog
  | Subscribe string callback
  | Unsubscribe handle
  | GetBufferedLogs string
  | Sweep

fun step :: "op \<times> int \<Rightarrow> SessionStore \<Rightarrow> SessionStore" where
  "step (AddLog sid log, now) st = addLog sid log now st"
| "step (Subscribe sid cb, now) st = snd (subscribe sid cb now st)"
| "step (Unsubscribe h, now) st = unsubscribe h st"
| "step (GetBufferedLogs sid, now) st = st"
| "step (Sweep, now) st = sweep now st"

definition run :: "(op \<times> int) list \<Rightarrow> SessionStore \<Rightarrow> SessionStore" where
  "run ops st = fold step ops st"

text \<open>The last \<open>n\<close> elements of a list (all of it when it is shorter).\<close>

definition lastN :: "nat \<Rightarrow> 'a list \<Rightarrow> 'a list" where
  "lastN n xs = drop (length xs - n) xs"

text \<open>The arguments a callback has been called with, in order.\<close>

definition received :: "callback \<Rightarrow> SessionStore \<Rightarrow> ServerFetchLog list" where
  "received cb st = map snd (filter (\<lambda>d. fst d = cb) (delivered st))"

text \<open>The subscribers of a session, in the order the store iterates them.\<close>

definition subscribers_of :: "string \<Rightarrow> SessionStore \<Rightarrow> callback list" where
  "subscribers_of sid st = (case sessions st sid of None \<Rightarrow> [] | Some buffer \<Rightarrow> subscribers buffer)"

text \<open>The records that the \<^verbatim>\<open>addLog\<close> calls of a run pass to one session, in the order of the calls.\<close>

fun added :: "string \<Rightarrow> (op \<times> int) list \<Rightarrow> ServerFetchLog list" where
  "added sid [] = []"
| "added sid ((AddLog s log, now) # rest) = (if s = sid then log # added sid rest else added sid rest)"
| "added sid ((Subscribe s cb, now) # rest) = added sid rest"
| "added sid ((Unsubscribe h, now) # rest) = added sid rest"
| "added sid ((GetBufferedLogs s, now) # rest) = added sid rest"
| "added sid ((Sweep, now) # rest) = added sid rest"

text \<open>
  No sweep of a run deletes the session: each sweep finds the session absent, or finds it
  with \<^verbatim>\<open>now - lastAccess\<close> within the time to live.
\<close>

fun outlives :: "string \<Rightarrow> op \<times> int \<Rightarrow> SessionStore \<Rightarrow> bool" where
  "outlives sid (Sweep, now) st =
     (case sessions st sid of None \<Rightarrow> True | Some buffer \<Rightarrow> \<not> expired st now buffer)"
| "outlives sid (AddLog s log, now) st = True"
| "outlives sid (Subscribe s cb, now) st = True"
| "outlives sid (Unsubscribe h, now) st = True"
| "outlives sid (GetBufferedLogs s, now) st = True"

fun survives :: "string \<Rightarrow> (op \<times> int) list \<Rightarrow> SessionStore \<Rightarrow> bool" where
  "survives sid [] st = True"
| "survives sid (x # xs) st = (outlives sid x st \<and> survives sid xs (step x st))"

text \<open>Concrete data for the scenarios of section 8 of the specification.\<close>

definition example_log :: "string \<Rightarrow> ServerFetchLog" where
  "example_log name =
     \<lparr> log_id = name, sessionId = ''s1'', timestamp = 0, http_method = ''GET'', url = ''http://api/'' @ name,
       requestHeaders = [], requestBody = None, status = 200, statusText = ''OK'',
       responseHeaders = [], responseBody = Some ''{}'', duration = 1, error = None \<rparr>"

definition store_2 :: SessionStore where
  "store_2 = new_store \<lparr> opt_maxLogsPerSession = Some (Finite 2 0), opt_ttlSeconds = Some 60, opt_debug = None \<rparr>"

definition store_0 :: SessionStore where
  "store_0 = new_store \<lparr> opt_maxLogsPerSession = Some (Finite 0 0), opt_ttlSeconds = Some 60, opt_debug = None \<rparr>"

definition store_half :: SessionStore where
  "store_half = new_store \<lparr> opt_maxLogsPerSession = Some (Finite 5 1), opt_ttlSeconds = Some 60, opt_debug = None \<rparr>"

definition ops_busy :: "(op \<times> int) list" where
  "ops_busy = [(AddLog ''s1'' (example_log ''A''), 0), (AddLog ''s2'' (example_log ''X''), 5),
               (AddLog ''s1'' (example_log ''B''), 10), (Sweep, 30000), (Subscribe ''s1'' 7, 30010),
               (AddLog ''s1'' (example_log ''C''), 30020), (Sweep, 60000)]"




text \<open>The store of the scenario "late subscriber backlog": capacity 2 after the records A, B, C.\<close>

definition store_bc :: SessionStore where
  "store_bc = run [(AddLog ''s1'' (example_log ''A''), 10), (AddLog ''s1'' (example_log ''B''), 20),
                   (AddLog ''s1'' (example_log ''C''), 30)] store_2"

definition ops_later :: "(op \<times> int) list" where
  "ops_later = [(AddLog ''s1'' (example_log ''D''), 50), (Sweep, 30000)]"

text \<open>
  The operations that go through \<^verbatim>\<open>getOrCreateSession\<close> for a session, and so write its
  \<^verbatim>\<open>lastAccess\<close>: \<^verbatim>\<open>addLog\<close> and \<^verbatim>\<open>subscribe\<close> of that session.
\<close>

fun touches :: "string \<Rightarrow> op \<Rightarrow> bool" where
  "touches sid (AddLog s log) = (s = sid)"
| "touches sid (Subscribe s cb) = (s = sid)"
| "touches sid (Unsubscribe h) = False"
| "touches sid (GetBufferedLogs s) = False"
| "touches sid Sweep = False"

text \<open>The \<^verbatim>\<open>lastAccess\<close> of a session, \<open>None\<close> when the session is not in the map.\<close>

definition last_access :: "string \<Rightarrow> SessionStore \<Rightarrow> int option" where
  "last_access sid st = map_option lastAccess (sessions st sid)"

definition ops_idle :: "(op \<times> int) list" where
  "ops_idle = [(GetBufferedLogs ''s2'', 20000), (Sweep, 30000), (AddLog ''s1'' (example_log ''B''), 50001)]"

section \<open>Server-side interceptor (packages/server/src/interceptor.ts)\<close>

text \<open>
  A thrown or rejected value: an \<^verbatim>\<open>Error\<close> object with its \<^verbatim>\<open>message\<close>, or any other
  value, given by what \<^verbatim>\<open>String(error)\<close> returns for it.
\<close>

datatype thrown = Error string | NonError string

text \<open>Line 149: \<^verbatim>\<open>error instanceof Error ? error.message : String(error)\<close>.\<close>

fun message_of :: "thrown \<Rightarrow> string" where
  "message_of (Error message) = message"
| "message_of (NonError text) = text"

text \<open>
  The first argument of \<^verbatim>\<open>fetch\<close>: a string, a \<^verbatim>\<open>URL\<close> (given by what its
  \<^verbatim>\<open>toString()\<close> returns) or a \<^verbatim>\<open>Request\<close> (given by its \<^verbatim>\<open>url\<close>).
\<close>

datatype request_info = InputString string | InputURL string | InputRequest string

text \<open>The three shapes of \<^verbatim>\<open>init.headers\<close>, each by its name/value pairs in order.\<close>

datatype headers_init =
    HeadersObject "(string \<times> string) list"
  | HeadersArray "(string \<times> string) list"
  | HeadersPlain "(string \<times> string) list"

text \<open>
  The shapes of \<^verbatim>\<open>init.body\<close> the interceptor tells apart: a string, a \<^verbatim>\<open>FormData\<close>
  (its entries), a \<^verbatim>\<open>URLSearchParams\<close> (given by what its \<^verbatim>\<open>toString()\<close> returns),
  and every other body (Blob, ArrayBuffer, typed array, stream).
\<close>

datatype body_init =
    BodyString string
  | BodyFormData "(string \<times> string) list"
  | BodyURLSearchParams string
  | BodyOther

record request_init =
  init_method :: "string option"
  init_headers :: "headers_init option"
  init_body :: "body_init option"

text \<open>
  A \<^verbatim>\<open>Response\<close>: status line, headers, and what reading the text of its clone gives
  (\<^verbatim>\<open>response.clone()\<close> or \<^verbatim>\<open>cloned.text()\<close> may throw).
\<close>

record response =
  resp_status :: int
  resp_statusText :: string
  resp_headers :: "(string \<times> string) list"
  resp_text :: "thrown + string"

text \<open>The original \<^verbatim>\<open>fetch\<close>: the promise it returns rejects (\<open>Inl\<close>) or resolves (\<open>Inr\<close>).\<close>

type_synonym fetch_fn = "request_info \<Rightarrow> request_init option \<Rightarrow> thrown + response"

text \<open>
  What one call of the wrapper reads from its environment: the outcome of \<^verbatim>\<open>cookies()\<close>
  (it throws outside a request scope, or gives the cookie values by name), the identifier
  \<^verbatim>\<open>generateId()\<close> returns, and the three readings of \<^verbatim>\<open>Date.now()\<close>: at the start
  (line 53), after the fetch settled (line 100 or 134), and inside \<^verbatim>\<open>addLog\<close>.
\<close>

record call_env =
  env_cookies :: "thrown + (string \<rightharpoonup> string)"
  env_id :: string
  env_startTime :: int
  env_endTime :: int
  env_logTime :: int

definition COOKIE_NAME :: string where
  "COOKIE_NAME = ''__netview_session''"

text \<open>\<^verbatim>\<open>getSessionId\<close> (lines 21-29).\<close>

definition getSessionId :: "thrown + (string \<rightharpoonup> string) \<Rightarrow> string option" where
  "getSessionId cookies = (case cookies of Inl e \<Rightarrow> None | Inr cookieStore \<Rightarrow> cookieStore COOKIE_NAME)"

text \<open>\<^verbatim>\<open>!sessionId\<close> (line 49): true of \<^verbatim>\<open>null\<close> and of the empty string.\<close>

definition no_session :: "string option \<Rightarrow> bool" where
  "no_session session = (case session of None \<Rightarrow> True | Some s \<Rightarrow> s = [])"

text \<open>\<^verbatim>\<open>String.prototype.includes\<close>: the first argument occurs in the second as a substring.\<close>

primrec str_includes :: "string \<Rightarrow> string \<Rightarrow> bool" where
  "str_includes needle [] = (needle = [])"
| "str_includes needle (c # cs) = (take (length needle) (c # cs) = needle \<or> str_includes needle cs)"

text \<open>Lines 57-61.\<close>

fun url_of :: "request_info \<Rightarrow> string" where
  "url_of (InputString s) = s"
| "url_of (InputURL href) = href"
| "url_of (InputRequest u) = u"

text \<open>Line 68: \<^verbatim>\<open>init?.method ?? 'GET'\<close>.\<close>

definition method_of :: "request_init option \<Rightarrow> string" where
  "method_of init = (case init of None \<Rightarrow> ''GET''
                     | Some i \<Rightarrow> (case init_method i of None \<Rightarrow> ''GET'' | Some m \<Rightarrow> m))"

text \<open>
  Assigning \<^verbatim>\<open>record[key] = value\<close> on an object that started as \<^verbatim>\<open>{}\<close>: a key
  that is present keeps its place and takes the new value, a new key goes to the end. The
  key \<^verbatim>\<open>__proto__\<close> reaches the setter of the prototype, which ignores a string: no
  property is created. \<^verbatim>\<open>headersToRecord\<close> (lines 13-19) and the loop of lines 76-78
  assign the pairs in order. The list gives the properties in the order of their creation;
  JavaScript enumerates integer-like keys before the others, an order that no operation
  modelled here reads.
\<close>

fun put :: "string \<Rightarrow> string \<Rightarrow> (string \<times> string) list \<Rightarrow> (string \<times> string) list" where
  "put key v [] = [(key, v)]"
| "put key v ((k, w) # rest) = (if k = key then (key, v) # rest else (k, w) # put key v rest)"

definition assign :: "string \<Rightarrow> string \<Rightarrow> (string \<times> string) list \<Rightarrow> (string \<times> string) list" where
  "assign key v record = (if key = ''__proto__'' then record else put key v record)"

definition headersToRecord :: "(string \<times> string) list \<Rightarrow> (string \<times> string) list" where
  "headersToRecord headers = fold (\<lambda>(key, v) record. assign key v record) headers []"

text \<open>Lines 71-82.\<close>

definition requestHeaders_of :: "request_init option \<Rightarrow> (string \<times> string) list" where
  "requestHeaders_of init =
     (case init of None \<Rightarrow> []
      | Some i \<Rightarrow> (case init_headers i of
          None \<Rightarrow> []
        | Some (HeadersObject hs) \<Rightarrow> headersToRecord hs
        | Some (HeadersArray ps) \<Rightarrow> fold (\<lambda>(key, v) record. assign key v record) ps []
        | Some (HeadersPlain ps) \<Rightarrow> ps))"

text \<open>
  Lines 85-96. \<^verbatim>\<open>if (init?.body)\<close> is false for an absent body and for the empty
  string; every object is truthy.
\<close>

definition requestBody_of :: "request_init option \<Rightarrow> string option" where
  "requestBody_of init =
     (case init of None \<Rightarrow> None
      | Some i \<Rightarrow> (case init_body i of
          None \<Rightarrow> None
        | Some (BodyString s) \<Rightarrow> if s = [] then None else Some s
        | Some (BodyFormData entries) \<Rightarrow> Some ''[FormData]''
        | Some (BodyURLSearchParams text) \<Rightarrow> Some text
        | Some BodyOther \<Rightarrow> Some ''[Binary Data]''))"

text \<open>
  The wrapper \<^verbatim>\<open>netviewFetch\<close> (lines 42-160): what its promise settles to, and the store
  afterwards, when the subscriber callbacks that \<^verbatim>\<open>addLog\<close> calls return normally. The
  \<^verbatim>\<open>console.log\<close> calls of debug mode are left out. The wrapper with subscribers that
  may throw is \<open>netviewFetch_with\<close> below; the two agree when no subscriber throws.
\<close>

definition netviewFetch ::
  "fetch_fn \<Rightarrow> call_env \<Rightarrow> request_info \<Rightarrow> request_init option \<Rightarrow> SessionStore
     \<Rightarrow> (thrown + response) \<times> SessionStore" where
  "netviewFetch originalFetch env input init store =
     (case getSessionId (env_cookies env) of
        None \<Rightarrow> (originalFetch input init, store)
      | Some session \<Rightarrow>
          if session = [] then (originalFetch input init, store)
          else if str_includes ''/__netview/'' (url_of input) then (originalFetch input init, store)
          else
            (case originalFetch input init of
               Inr response \<Rightarrow>
                 (let elapsed = env_endTime env - env_startTime env;
                      body_text = (case resp_text response of
                                        Inl e \<Rightarrow> Some ''[Unable to read body]''
                                      | Inr text \<Rightarrow> Some text);
                      log = \<lparr> log_id = env_id env, sessionId = session, timestamp = env_startTime env,
                              http_method = method_of init, url = url_of input,
                              requestHeaders = requestHeaders_of init, requestBody = requestBody_of init,
                              status = resp_status response, statusText = resp_statusText response,
                              responseHeaders = headersToRecord (resp_headers response),
                              responseBody = body_text, duration = elapsed, error = None \<rparr>
                  in (Inr response, addLog session log (env_logTime env) store))
             | Inl err \<Rightarrow>
                 (let elapsed = env_endTime env - env_startTime env;
                      log = \<lparr> log_id = env_id env, sessionId = session, timestamp = env_startTime env,
                              http_method = method_of init, url = url_of input,
                              requestHeaders = requestHeaders_of init, requestBody = requestBody_of init,
                              status = 0, statusText = ''Error'',
                              responseHeaders = [], responseBody = None,
                              duration = elapsed, error = Some (message_of err) \<rparr>
                  in (Inl err, addLog session log (env_logTime env) store))))"

text \<open>
  Subscribers that throw. A callback either returns normally whenever it is called or
  throws a value whenever it is called (the endpoint's \<^verbatim>\<open>send\<close> throws once its stream
  is closed): \<open>throws\<close> gives what a callback throws, \<open>None\<close> when it returns. The loop of
  \<^verbatim>\<open>addLog\<close> stops at the first subscriber that throws; the record is in the buffer by
  then, the subscribers before it have been called, the ones after it have not.
\<close>

type_synonym behaviour = "callback \<Rightarrow> thrown option"

primrec notify_with :: "behaviour \<Rightarrow> callback list \<Rightarrow> ServerFetchLog
    \<Rightarrow> (callback \<times> ServerFetchLog) list \<Rightarrow> thrown option \<times> (callback \<times> ServerFetchLog) list" where
  "notify_with throws [] log trace = (None, trace)"
| "notify_with throws (subscriber # rest) log trace =
     (case throws subscriber of
        None \<Rightarrow> notify_with throws rest log (trace @ [(subscriber, log)])
      | Some t \<Rightarrow> (Some t, trace @ [(subscriber, log)]))"

text \<open>\<^verbatim>\<open>addLog\<close> (store.ts, lines 44-58) with such subscribers: what it throws, if anything, and the store.\<close>

definition addLog_with :: "behaviour \<Rightarrow> string \<Rightarrow> ServerFetchLog \<Rightarrow> int \<Rightarrow> SessionStore
    \<Rightarrow> thrown option \<times> SessionStore" where
  "addLog_with throws sid log now st =
     (let (buffer, st) = getOrCreateSession sid now st;
          buffer = (if length_ge (length (logs buffer)) (maxLogsPerSession st)
                    then buffer\<lparr> logs := tl (logs buffer) \<rparr> else buffer);
          buffer = buffer\<lparr> logs := logs buffer @ [log] \<rparr>;
          st = st\<lparr> sessions := (sessions st)(sid \<mapsto> buffer) \<rparr>;
          (t, trace) = notify_with throws (subscribers buffer) log (delivered st)
      in (t, st\<lparr> delivered := trace \<rparr>))"

text \<open>
  The \<^verbatim>\<open>catch\<close> block of the wrapper (lines 133-159), entered with the caught value and
  the readings of \<^verbatim>\<open>Date.now()\<close> at line 134 and inside \<^verbatim>\<open>addLog\<close>. When
  \<^verbatim>\<open>store.addLog\<close> (line 152) throws, \<^verbatim>\<open>throw error\<close> (line 158) is not reached and
  the wrapper rejects with what the subscriber threw.
\<close>

definition catch_block :: "behaviour \<Rightarrow> string \<Rightarrow> call_env \<Rightarrow> request_info \<Rightarrow> request_init option
    \<Rightarrow> thrown \<Rightarrow> int \<Rightarrow> int \<Rightarrow> SessionStore \<Rightarrow> (thrown + response) \<times> SessionStore" where
  "catch_block throws session env input init err endTime logTime store =
     (let elapsed = endTime - env_startTime env;
          log = \<lparr> log_id = env_id env, sessionId = session, timestamp = env_startTime env,
                  http_method = method_of init, url = url_of input,
                  requestHeaders = requestHeaders_of init, requestBody = requestBody_of init,
                  status = 0, statusText = ''Error'',
                  responseHeaders = [], responseBody = None,
                  duration = elapsed, error = Some (message_of err) \<rparr>
      in case addLog_with throws session log logTime store of
           (None, store') \<Rightarrow> (Inl err, store')
         | (Some t, store') \<Rightarrow> (Inl t, store'))"

text \<open>
  When \<^verbatim>\<open>store.addLog\<close> throws inside the \<^verbatim>\<open>try\<close> (line 126), after a fetch that
  resolved, the \<^verbatim>\<open>catch\<close> block runs with what the subscriber threw; it reads the clock
  again, at line 134 and inside its own \<^verbatim>\<open>addLog\<close>.
\<close>

record catch_env =
  env_catchTime :: int
  env_catchLogTime :: int

text \<open>The wrapper \<^verbatim>\<open>netviewFetch\<close> (lines 42-160) with subscribers that may throw.\<close>

definition netviewFetch_with ::
  "behaviour \<Rightarrow> catch_env \<Rightarrow> fetch_fn \<Rightarrow> call_env \<Rightarrow> request_info \<Rightarrow> request_init option \<Rightarrow> SessionStore
     \<Rightarrow> (thrown + response) \<times> SessionStore" where
  "netviewFetch_with throws cenv originalFetch env input init store =
     (case getSessionId (env_cookies env) of
        None \<Rightarrow> (originalFetch input init, store)
      | Some session \<Rightarrow>
          if session = [] then (originalFetch input init, store)
          else if str_includes ''/__netview/'' (url_of input) then (originalFetch input init, store)
          else
            (case originalFetch input init of
               Inr response \<Rightarrow>
                 (let elapsed = env_endTime env - env_startTime env;
                      body_text = (case resp_text response of
                                        Inl e \<Rightarrow> Some ''[Unable to read body]''
                                      | Inr text \<Rightarrow> Some text);
                      log = \<lparr> log_id = env_id env, sessionId = session, timestamp = env_startTime env,
                              http_method = method_of init, url = url_of input,
                              requestHeaders = requestHeaders_of init, requestBody = requestBody_of init,
                              status = resp_status response, statusText = resp_statusText response,
                              responseHeaders = headersToRecord (resp_headers response),
                              responseBody = body_text, duration = elapsed, error = None \<rparr>
                  in case addLog_with throws session log (env_logTime env) store of
                       (None, store') \<Rightarrow> (Inr response, store')
                     | (Some t, store') \<Rightarrow>
                         catch_block throws session env input init t
                           (env_catchTime cenv) (env_catchLogTime cenv) store')
             | Inl err \<Rightarrow>
                 catch_block throws session env input init err (env_endTime env) (env_logTime env) store))"

text \<open>
  The form-data snapshot as the specification words it (and as the in-page interceptor's
  \<^verbatim>\<open>getBodyString\<close> of src/injected/interceptor.ts builds it): one line \<^verbatim>\<open>key: value\<close>
  per entry, joined by newlines.
\<close>

fun form_lines :: "(string \<times> string) list \<Rightarrow> string" where
  "form_lines [] = []"
| "form_lines [(k, v)] = k @ '': '' @ v"
| "form_lines ((k, v) # rest) = k @ '': '' @ v @ [CHR 0x0A] @ form_lines rest"

text \<open>Concrete data for the interceptor.\<close>

definition env_s1 :: call_env where
  "env_s1 = \<lparr> env_cookies = Inr [COOKIE_NAME \<mapsto> ''s1''], env_id = ''1700000000000-abc'',
              env_startTime = 1000, env_endTime = 1250, env_logTime = 1251 \<rparr>"

definition env_none :: call_env where
  "env_none = \<lparr> env_cookies = Inl (Error ''cookies was called outside a request scope''),
                env_id = ''1700000000000-abd'', env_startTime = 1000, env_endTime = 1250, env_logTime = 1251 \<rparr>"

text \<open>A clock that went back by 100 ms between the two readings of the wrapper.\<close>

definition env_back :: call_env where
  "env_back = \<lparr> env_cookies = Inr [COOKIE_NAME \<mapsto> ''s1''], env_id = ''1700000000000-abe'',
                env_startTime = 1000, env_endTime = 900, env_logTime = 901 \<rparr>"

definition cenv_0 :: catch_env where
  "cenv_0 = \<lparr> env_catchTime = 1252, env_catchLogTime = 1253 \<rparr>"

text \<open>No subscriber throws; and the subscriber 7 throws, as \<^verbatim>\<open>send\<close> does on a closed stream.\<close>

definition quiet :: behaviour where
  "quiet c = None"

definition closed_7 :: behaviour where
  "closed_7 c = (if c = 7 then Some (Error ''Invalid state: Controller is already closed'') else None)"

definition fetch_fails :: fetch_fn where
  "fetch_fails input init = Inl (Error ''fetch failed'')"

definition post_form :: "request_init option" where
  "post_form = Some \<lparr> init_method = Some ''POST'', init_headers = None,
                      init_body = Some (BodyFormData [(''a'', ''1''), (''b'', ''2'')]) \<rparr>"

definition fetch_ok :: fetch_fn where
  "fetch_ok input init = Inr \<lparr> resp_status = 200, resp_statusText = ''OK'',
       resp_headers = [(''content-type'', ''application/json'')], resp_text = Inr ''{}'' \<rparr>"

section \<open>Streaming endpoint (packages/server/src/stream.ts)\<close>

text \<open>
  The module-level singleton \<^verbatim>\<open>storeInstance\<close> is \<open>None\<close> until \<^verbatim>\<open>initStore\<close> has run.
  \<^verbatim>\<open>getStore\<close> (store.ts, lines 93-98) throws when it is \<^verbatim>\<open>null\<close>; \<^verbatim>\<open>initStore\<close>
  (lines 100-106) destroys the previous instance and installs a new one.
\<close>

definition getStore :: "SessionStore option \<Rightarrow> thrown + SessionStore" where
  "getStore storeInstance =
     (case storeInstance of
        None \<Rightarrow> Inl (Error ''NetView store not initialized. Call registerNetView() first.'')
      | Some store \<Rightarrow> Inr store)"

definition initStore :: "NetViewOptions \<Rightarrow> SessionStore option \<Rightarrow> SessionStore option" where
  "initStore options storeInstance = Some (new_store options)"

text \<open>
  What the endpoint enqueues on the stream. A comment frame is the text \<^verbatim>\<open>: connected\<close>
  and a blank line; a data frame is \<^verbatim>\<open>data: \<close>, the \<^verbatim>\<open>JSON.stringify\<close> of a value, and
  a blank line. The value is a record, or the object \<^verbatim>\<open>{ error: message }\<close>.
\<close>

datatype frame = Comment string | Data ServerFetchLog | DataError string

record stream =
  frames :: "frame list"
  closed :: bool

text \<open>
  The response of \<^verbatim>\<open>GET\<close>: status 400 with a text, or the event stream together with the
  \<^verbatim>\<open>unsubscribe\<close> closure that \<^verbatim>\<open>cancel\<close> will call (\<^verbatim>\<open>null\<close> when there is none).
\<close>

datatype get_response = BadRequest string | EventStream stream "handle option"

text \<open>
  \<^verbatim>\<open>GET\<close> (lines 5-50), with the \<^verbatim>\<open>start\<close> function of the stream, which the
  \<^verbatim>\<open>ReadableStream\<close> constructor runs at once. \<open>session\<close> is what
  \<^verbatim>\<open>searchParams.get('session')\<close> returns; \<^verbatim>\<open>!sessionId\<close> holds for \<^verbatim>\<open>null\<close> and for
  the empty string. \<open>send\<close> is the identity of the closure \<^verbatim>\<open>send\<close> created by this call:
  every call of it enqueues one data frame, so the frames it has enqueued when \<^verbatim>\<open>start\<close>
  returns are the records it was called with during \<^verbatim>\<open>subscribe\<close>.
\<close>

definition GET :: "string option \<Rightarrow> callback \<Rightarrow> int \<Rightarrow> SessionStore option
    \<Rightarrow> get_response \<times> SessionStore option" where
  "GET session send now storeInstance =
     (case session of
        None \<Rightarrow> (BadRequest ''Missing session parameter'', storeInstance)
      | Some sid \<Rightarrow>
          if sid = [] then (BadRequest ''Missing session parameter'', storeInstance)
          else
            (let connected = [Comment ''connected'']
             in case getStore storeInstance of
                  Inr store \<Rightarrow>
                    (let (h, store') = subscribe sid send now store;
                         sent = drop (length (received send store)) (received send store')
                     in (EventStream \<lparr> frames = connected @ map Data sent, closed = False \<rparr> (Some h),
                         Some store'))
                | Inl e \<Rightarrow>
                    (EventStream \<lparr> frames = connected @ [DataError ''NetView not initialized''],
                                   closed = True \<rparr> None,
                     storeInstance)))"

text \<open>The data frames of a stream.\<close>

fun is_data :: "frame \<Rightarrow> bool" where
  "is_data (Comment text) = False"
| "is_data (Data log) = True"
| "is_data (DataError message) = True"

section \<open>Client aggregator (src/content/index.tsx)\<close>

text \<open>
  A value decoded by \<^verbatim>\<open>JSON.parse\<close>. The numbers in the frames of the server are integers
  (clock readings, status codes, durations). A JavaScript value read from a property is a
  \<open>json option\<close>, \<open>None\<close> for \<^verbatim>\<open>undefined\<close>.
\<close>

datatype json =
    JNull
  | JBool bool
  | JNum int
  | JStr string
  | JArr "json list"
  | JObj "(string \<times> json) list"

text \<open>
  Reading a property of a value that is not \<^verbatim>\<open>null\<close>: an object decoded from JSON has
  its own members; strings, numbers, booleans and arrays have none of the property names
  the aggregator reads. When a key occurs twice in the JSON text the last one counts.
\<close>

fun get_prop :: "json \<Rightarrow> string \<Rightarrow> json option" where
  "get_prop (JObj members) key = map_of (rev members) key"
| "get_prop v key = None"

text \<open>Truthiness, as the tests \<^verbatim>\<open>if (log.error)\<close> and \<^verbatim>\<open>log.error ? ... : ...\<close> use it.\<close>

fun truthy :: "json option \<Rightarrow> bool" where
  "truthy None = False"
| "truthy (Some JNull) = False"
| "truthy (Some (JBool b)) = b"
| "truthy (Some (JNum n)) = (n \<noteq> 0)"
| "truthy (Some (JStr s)) = (s \<noteq> [])"
| "truthy (Some (JArr vs)) = True"
| "truthy (Some (JObj members)) = True"

datatype RequestState = Pending | Completed | Failed

datatype RequestSource = Client | Server

datatype RequestType = Fetch | Xhr

text \<open>
  \<^verbatim>\<open>NetworkRequest\<close> (src/shared/types.ts), fields prefixed with \<open>nr_\<close>. The state
  \<^verbatim>\<open>'error'\<close> is the constructor \<open>Failed\<close>. The fields copied from a decoded frame hold
  whatever JavaScript value the frame has there.
\<close>

record NetworkRequest =
  nr_id :: string
  nr_timestamp :: "json option"
  nr_method :: "json option"
  nr_url :: "json option"
  nr_requestHeaders :: "json option"
  nr_requestBody :: "json option"
  nr_status :: "json option"
  nr_statusText :: "json option"
  nr_responseHeaders :: "json option"
  nr_responseBody :: "json option"
  nr_duration :: "json option"
  nr_type :: RequestType
  nr_source :: RequestSource
  nr_state :: RequestState
  nr_error :: "json option"

text \<open>
  The handler \<^verbatim>\<open>eventSource.onmessage\<close> (lines 36-70) as a function of the collection
  \<^verbatim>\<open>requestsAtom\<close>. \<open>parsed\<close> is the outcome of \<^verbatim>\<open>JSON.parse(event.data)\<close>, \<open>None\<close>
  when it throws; reading \<^verbatim>\<open>log.error\<close> of \<^verbatim>\<open>null\<close> throws as well; both land in the
  \<^verbatim>\<open>catch\<close>, which leaves the collection as it is. \<open>to_string\<close> is the conversion to a
  string that the template literal of line 48 applies to \<^verbatim>\<open>log.id\<close>.
\<close>

definition onmessage :: "(json option \<Rightarrow> string) \<Rightarrow> json option \<Rightarrow> NetworkRequest list \<Rightarrow> NetworkRequest list" where
  "onmessage to_string parsed currentRequests =
     (case parsed of
        None \<Rightarrow> currentRequests
      | Some JNull \<Rightarrow> currentRequests
      | Some log \<Rightarrow>
          if truthy (get_prop log ''error'') then currentRequests
          else
            currentRequests @
            [\<lparr> nr_id = ''server-'' @ to_string (get_prop log ''id''),
               nr_timestamp = get_prop log ''timestamp'',
               nr_method = get_prop log ''method'',
               nr_url = get_prop log ''url'',
               nr_requestHeaders = get_prop log ''requestHeaders'',
               nr_requestBody = get_prop log ''requestBody'',
               nr_status = get_prop log ''status'',
               nr_statusText = get_prop log ''statusText'',
               nr_responseHeaders = get_prop log ''responseHeaders'',
               nr_responseBody = get_prop log ''responseBody'',
               nr_duration = get_prop log ''duration'',
               nr_type = Fetch,
               nr_source = Server,
               nr_state = (if truthy (get_prop log ''error'') then Failed else Completed),
               nr_error = get_prop log ''error'' \<rparr>])"

text \<open>
  What \<^verbatim>\<open>JSON.parse\<close> gives back for the \<^verbatim>\<open>JSON.stringify\<close> of a record: an object with
  the fields in order; \<^verbatim>\<open>null\<close> bodies stay \<^verbatim>\<open>null\<close>, and an absent \<^verbatim>\<open>error\<close> is
  left out.
\<close>

definition json_of_headers :: "(string \<times> string) list \<Rightarrow> json" where
  "json_of_headers hs = JObj (map (\<lambda>(k, v). (k, JStr v)) hs)"

definition json_of_body :: "string option \<Rightarrow> json" where
  "json_of_body b = (case b of None \<Rightarrow> JNull | Some s \<Rightarrow> JStr s)"

definition json_of_log :: "ServerFetchLog \<Rightarrow> json" where
  "json_of_log log =
     JObj ([(''id'', JStr (log_id log)), (''sessionId'', JStr (sessionId log)),
            (''timestamp'', JNum (timestamp log)), (''method'', JStr (http_method log)),
            (''url'', JStr (url log)), (''requestHeaders'', json_of_headers (requestHeaders log)),
            (''requestBody'', json_of_body (requestBody log)), (''status'', JNum (status log)),
            (''statusText'', JStr (statusText log)),
            (''responseHeaders'', json_of_headers (responseHeaders log)),
            (''responseBody'', json_of_body (responseBody log)), (''duration'', JNum (duration log))]
           @ (case error log of None \<Rightarrow> [] | Some message \<Rightarrow> [(''error'', JStr message)]))"

text \<open>The record of a failed call, as \<^verbatim>\<open>netviewFetch\<close> builds it (lines 136-150).\<close>

definition failed_log :: ServerFetchLog where
  "failed_log =
     \<lparr> log_id = ''1700000000000-abc'', sessionId = ''s1'', timestamp = 1000, http_method = ''GET'',
       url = ''http://api/users'', requestHeaders = [], requestBody = None, status = 0,
       statusText = ''Error'', responseHeaders = [], responseBody = None, duration = 250,
       error = Some ''fetch failed'' \<rparr>"

text \<open>A fetch that rejects with \<^verbatim>\<open>new Error('')\<close>, an error whose message is the empty string.\<close>

definition fetch_fails_silent :: fetch_fn where
  "fetch_fails_silent input init = Inl (Error [])"

section \<open>Properties of the session store\<close>

lemma notify_eq: "notify subs log trace = trace @ map (\<lambda>c. (c, log)) subs"
  by (induction subs arbitrary: trace) simp_all

lemma replay_eq: "replay cb ls trace = trace @ map (\<lambda>l. (cb, l)) ls"
  by (induction ls arbitrary: trace) simp_all

lemma run_Nil [simp]: "run [] st = st"
  by (simp add: run_def)

lemma run_append: "run (xs @ ys) st = run ys (run xs st)"
  by (simp add: run_def)

lemma run_Cons: "run (x # xs) st = run xs (step x st)"
  by (simp add: run_def)

subsection \<open>The bounded buffer\<close>

lemma addLog_maxLogs [simp]: "maxLogsPerSession (addLog sid log now st) = maxLogsPerSession st"
  by (simp add: addLog_def getOrCreateSession_def Let_def split: option.splits)

lemma addLog_ttlMs [simp]: "ttlMs (addLog sid log now st) = ttlMs st"
  by (simp add: addLog_def getOrCreateSession_def Let_def split: option.splits)

lemma step_maxLogs [simp]: "maxLogsPerSession (step x st) = maxLogsPerSession st"
proof (cases x)
  case (Pair op now)
  show ?thesis
    by (cases op) (simp_all add: Pair subscribe_def getOrCreateSession_def unsubscribe_def sweep_def Let_def split: option.splits)
qed

lemma addLog_logs:
  "getBufferedLogs sid (addLog sid log now st) =
     (if length_ge (length (getBufferedLogs sid st)) (maxLogsPerSession st)
      then tl (getBufferedLogs sid st) else getBufferedLogs sid st) @ [log]"
  by (simp add: addLog_def getOrCreateSession_def getBufferedLogs_def Let_def split: option.splits)

lemma addLog_logs_other:
  "sid' \<noteq> sid \<Longrightarrow> getBufferedLogs sid' (addLog sid log now st) = getBufferedLogs sid' st"
  by (simp add: addLog_def getOrCreateSession_def getBufferedLogs_def Let_def split: option.splits)

lemma subscribe_logs:
  "getBufferedLogs sid' (snd (subscribe sid cb now st)) = getBufferedLogs sid' st"
  by (simp add: subscribe_def getOrCreateSession_def getBufferedLogs_def Let_def split: option.splits)

lemma unsubscribe_logs: "getBufferedLogs sid (unsubscribe h st) = getBufferedLogs sid st"
  by (simp add: unsubscribe_def getBufferedLogs_def split: option.splits)

lemma sweep_logs:
  "getBufferedLogs sid (sweep now st) = [] \<or> getBufferedLogs sid (sweep now st) = getBufferedLogs sid st"
  by (simp add: sweep_def getBufferedLogs_def split: option.splits)

lemma sweep_logs_outlives:
  "outlives sid (Sweep, now) st \<Longrightarrow> getBufferedLogs sid (sweep now st) = getBufferedLogs sid st"
  by (simp add: sweep_def getBufferedLogs_def split: option.splits)

lemma lastN_short: "length xs \<le> n \<Longrightarrow> lastN n xs = xs"
  by (simp add: lastN_def)

lemma length_lastN: "length (lastN n xs) = min n (length xs)"
  by (simp add: lastN_def)

lemma lastN_snoc:
  assumes "0 < n"
  shows "(if n \<le> length (lastN n xs) then tl (lastN n xs) else lastN n xs) @ [x] = lastN n (xs @ [x])"
proof (cases "n \<le> length xs")
  case True
  then have "tl (drop (length xs - n) xs) = drop (Suc (length xs) - n) xs"
    by (simp add: drop_Suc[symmetric] tl_drop Suc_diff_le)
  with True assms show ?thesis by (simp add: lastN_def)
next
  case False
  then show ?thesis by (simp add: lastN_def)
qed

text \<open>With an integer capacity the test of \<^verbatim>\<open>addLog\<close> compares two natural numbers.\<close>

lemma length_ge_whole [simp]: "length_ge len (Finite (int n) 0) = (n \<le> len)"
  by simp

text \<open>
  The length bound is an invariant of every operation: with an integer capacity of at least
  1, a buffer within the capacity stays within it, whatever the store does next.
\<close>

lemma step_length_bound:
  assumes "maxLogsPerSession st = Finite (int n) 0" and "1 \<le> n"
    and "length (getBufferedLogs sid st) \<le> n"
  shows "length (getBufferedLogs sid (step x st)) \<le> n"
proof (cases x)
  case (Pair op now)
  show ?thesis
  proof (cases op)
    case (AddLog s log)
    show ?thesis
    proof (cases "s = sid")
      case True
      with Pair AddLog assms show ?thesis by (auto simp add: addLog_logs)
    next
      case False
      with Pair AddLog assms(3) show ?thesis by (simp add: addLog_logs_other)
    qed
  next
    case (Subscribe s cb)
    with Pair assms(3) show ?thesis by (simp add: subscribe_logs)
  next
    case (Unsubscribe h)
    with Pair assms(3) show ?thesis by (simp add: unsubscribe_logs)
  next
    case (GetBufferedLogs s)
    with Pair assms(3) show ?thesis by simp
  next
    case Sweep
    with Pair assms(3) sweep_logs [of sid now st] show ?thesis by auto
  qed
qed

lemma run_length_bound:
  "maxLogsPerSession st = Finite (int n) 0 \<Longrightarrow> 1 \<le> n \<Longrightarrow> length (getBufferedLogs sid st) \<le> n \<Longrightarrow>
   length (getBufferedLogs sid (run ops st)) \<le> n"
proof (induction ops arbitrary: st)
  case Nil
  then show ?case by simp
next
  case (Cons x ops)
  from Cons.prems have "length (getBufferedLogs sid (step x st)) \<le> n"
    by (rule step_length_bound)
  with Cons.prems(1,2) have "length (getBufferedLogs sid (run ops (step x st))) \<le> n"
    by (intro Cons.IH) simp_all
  then show ?case by (simp add: run_Cons)
qed

text \<open>
  The contents: as long as no sweep deletes the session, the buffer is the last \<open>n\<close> records
  of everything that was appended to it, whatever other operations run in between.
\<close>

lemma step_logs_survives:
  assumes "maxLogsPerSession st = Finite (int n) 0" and "1 \<le> n"
    and "outlives sid x st" and "getBufferedLogs sid st = lastN n hist"
  shows "getBufferedLogs sid (step x st) = lastN n (hist @ added sid [x])"
proof (cases x)
  case (Pair op now)
  show ?thesis
  proof (cases op)
    case (AddLog s log)
    show ?thesis
    proof (cases "s = sid")
      case True
      from assms(2) have n: "0 < n" by simp
      have "getBufferedLogs sid (addLog sid log now st) =
              (if n \<le> length (lastN n hist) then tl (lastN n hist) else lastN n hist) @ [log]"
        by (simp add: addLog_logs assms(1) assms(4))
      also have "\<dots> = lastN n (hist @ [log])"
        by (rule lastN_snoc [OF n])
      finally show ?thesis using Pair AddLog True by simp
    next
      case False
      with Pair AddLog assms(4) show ?thesis by (simp add: addLog_logs_other)
    qed
  next
    case (Subscribe s cb)
    with Pair assms(4) show ?thesis by (simp add: subscribe_logs)
  next
    case (Unsubscribe h)
    with Pair assms(4) show ?thesis by (simp add: unsubscribe_logs)
  next
    case (GetBufferedLogs s)
    with Pair assms(4) show ?thesis by simp
  next
    case Sweep
    with Pair assms(3) have "outlives sid (Sweep, now) st" by simp
    then have "getBufferedLogs sid (sweep now st) = getBufferedLogs sid st"
      by (rule sweep_logs_outlives)
    with Pair Sweep assms(4) show ?thesis by simp
  qed
qed

lemma added_Cons: "added sid (x # xs) = added sid [x] @ added sid xs"
proof (cases x)
  case (Pair op now)
  then show ?thesis by (cases op) simp_all
qed

lemma run_logs_survives:
  "maxLogsPerSession st = Finite (int n) 0 \<Longrightarrow> 1 \<le> n \<Longrightarrow> survives sid ops st \<Longrightarrow>
   getBufferedLogs sid st = lastN n hist \<Longrightarrow>
   getBufferedLogs sid (run ops st) = lastN n (hist @ added sid ops)"
proof (induction ops arbitrary: st hist)
  case Nil
  then show ?case by simp
next
  case (Cons x ops)
  from Cons.prems have o: "outlives sid x st" and s: "survives sid ops (step x st)" by simp_all
  have l: "getBufferedLogs sid (step x st) = lastN n (hist @ added sid [x])"
    using Cons.prems(1,2) o Cons.prems(4) by (rule step_logs_survives)
  have m: "maxLogsPerSession (step x st) = Finite (int n) 0"
    using Cons.prems(1) by simp
  have "getBufferedLogs sid (run ops (step x st)) = lastN n ((hist @ added sid [x]) @ added sid ops)"
    using m Cons.prems(2) s l by (rule Cons.IH)
  then show ?case
    by (simp add: run_Cons added_Cons [of sid x ops])
qed

text \<open>
  C1, amended. Let the capacity \<open>maxLogsPerSession\<close> be an integer \<open>n\<close> of at least 1, and
  the session's buffer be within it (an absent session has the empty buffer). Then after
  every run of store operations the buffer is no longer than \<open>n\<close>. And when no sweep of the
  run deletes the session, the buffer holds exactly the most recent \<open>n\<close> of the records it
  had and the records the \<^verbatim>\<open>addLog\<close> calls of the run passed to the session, oldest
  first, in the order of the calls. The statement is for every run, hence for every prefix
  of a run: the bound and the contents hold after each call on the way.
\<close>

theorem addLog_bounded_fifo:
  assumes "maxLogsPerSession st = Finite (int n) 0" and "1 \<le> n"
    and "length (getBufferedLogs sid st) \<le> n"
  shows "length (getBufferedLogs sid (run ops st)) \<le> n \<and>
         (survives sid ops st \<longrightarrow>
            getBufferedLogs sid (run ops st) = lastN n (getBufferedLogs sid st @ added sid ops))"
proof -
  have a: "length (getBufferedLogs sid (run ops st)) \<le> n"
    using assms by (rule run_length_bound)
  have h: "getBufferedLogs sid st = lastN n (getBufferedLogs sid st)"
    using assms(3) by (simp add: lastN_short)
  have b: "survives sid ops st \<longrightarrow>
            getBufferedLogs sid (run ops st) = lastN n (getBufferedLogs sid st @ added sid ops)"
  proof
    assume "survives sid ops st"
    with assms(1,2) show "getBufferedLogs sid (run ops st) = lastN n (getBufferedLogs sid st @ added sid ops)"
      using h by (rule run_logs_survives)
  qed
  from a b show ?thesis by simp
qed

text \<open>
  The scenario "basic capture" with the store's timer running: capacity 2, the records A,
  B, C for s1 with a record for another session, a subscription and two sweeps that find s1
  in use in between; the buffer of s1 is B, C.
\<close>

theorem addLog_bounded_fifo_witness:
  "maxLogsPerSession store_2 = Finite (int 2) 0 \<and> (1::nat) \<le> 2 \<and>
   length (getBufferedLogs ''s1'' store_2) \<le> 2 \<and> survives ''s1'' ops_busy store_2 \<and>
   length (getBufferedLogs ''s1'' (run ops_busy store_2)) \<le> 2 \<and>
   getBufferedLogs ''s1'' (run ops_busy store_2) = [example_log ''B'', example_log ''C'']"
proof -
  have a: "maxLogsPerSession store_2 = Finite (int 2) 0" by (simp add: store_2_def new_store_def)
  have b: "(1::nat) \<le> 2" by simp
  have c: "length (getBufferedLogs ''s1'' store_2) \<le> 2"
    by (simp add: store_2_def new_store_def getBufferedLogs_def)
  have d: "survives ''s1'' ops_busy store_2"
    by (simp add: ops_busy_def store_2_def new_store_def addLog_def subscribe_def getOrCreateSession_def
        sweep_def expired_def Let_def)
  have e: "getBufferedLogs ''s1'' store_2 = []"
    by (simp add: store_2_def new_store_def getBufferedLogs_def)
  have f: "added ''s1'' ops_busy = [example_log ''A'', example_log ''B'', example_log ''C'']"
    by (simp add: ops_busy_def)
  from addLog_bounded_fifo [OF a b c, of ops_busy] a c d show ?thesis
    by (simp add: e f lastN_def)
qed

text \<open>
  C1 as stated fails when the store's timer runs between two calls: with capacity 2, A and
  B are added at 0 and 10 ms, the sweep at 90000 ms finds the session idle for longer than
  its 60000 ms and deletes it, and C, added at 100000 ms, starts a new buffer. The buffer
  is then C alone, not the most recent two records B, C of the three calls.
\<close>

theorem addLog_across_sweep_counterexample:
  "getBufferedLogs ''s1'' (run [(AddLog ''s1'' (example_log ''A''), 0), (AddLog ''s1'' (example_log ''B''), 10),
      (Sweep, 90000), (AddLog ''s1'' (example_log ''C''), 100000)] store_2)
     \<noteq> lastN 2 [example_log ''A'', example_log ''B'', example_log ''C'']"
  by (simp add: run_def store_2_def new_store_def addLog_def getOrCreateSession_def sweep_def expired_def
      getBufferedLogs_def lastN_def Let_def)

text \<open>
  Outside the integers from 1 on the code does not keep the bound: the test
  \<^verbatim>\<open>length >= maxLogsPerSession\<close> removes at most one record and the new one is always
  pushed. With a capacity of 0 the buffer holds one record, with 2.5 it holds three.
\<close>

lemma addLog_capacity_zero:
  "length (getBufferedLogs ''s1'' (run [(AddLog ''s1'' (example_log ''A''), 10)] store_0)) = 1"
  by (simp add: run_def store_0_def new_store_def addLog_def getOrCreateSession_def getBufferedLogs_def Let_def)

lemma addLog_capacity_fraction:
  "length (getBufferedLogs ''s1'' (run [(AddLog ''s1'' (example_log ''A''), 10),
      (AddLog ''s1'' (example_log ''B''), 20), (AddLog ''s1'' (example_log ''C''), 30),
      (AddLog ''s1'' (example_log ''D''), 40)] store_half)) = 3"
  by (simp add: run_def store_half_def new_store_def addLog_def getOrCreateSession_def getBufferedLogs_def Let_def)

subsection \<open>Delivery to subscribers\<close>

lemmas store_eval = run_def store_2_def new_store_def subscribe_def addLog_def getOrCreateSession_def
  sweep_def expired_def unsubscribe_def subscribers_of_def getBufferedLogs_def Let_def

lemma subscribe_delivered:
  "delivered (snd (subscribe sid cb now st)) = delivered st @ map (\<lambda>l. (cb, l)) (getBufferedLogs sid st)"
  by (simp add: subscribe_def getOrCreateSession_def getBufferedLogs_def replay_eq Let_def split: option.splits)





lemma subscribers_of_subscribe:
  "subscribers_of sid' (snd (subscribe sid cb now st)) =
     (if sid' = sid \<and> cb \<notin> set (subscribers_of sid st) then subscribers_of sid st @ [cb]
      else subscribers_of sid' st)"
  by (simp add: subscribe_def getOrCreateSession_def subscribers_of_def Let_def split: option.splits)









lemma late_subscriber_backlog:
  "received 7 (snd (subscribe ''s1'' 7 40 store_bc)) = [example_log ''B'', example_log ''C''] \<and>
   received 7 (addLog ''s1'' (example_log ''E'') 30010 (run ops_later (snd (subscribe ''s1'' 7 40 store_bc)))) =
     [example_log ''B'', example_log ''C'', example_log ''D'', example_log ''E'']"
  by (simp add: ops_later_def store_bc_def store_eval received_def replay_eq notify_eq)





subsection \<open>Reading the buffer\<close>

text \<open>
  C4, amended. \<^verbatim>\<open>getBufferedLogs\<close> returns the records of the session's buffer, and the
  empty sequence for a session that is not in the map; the call changes nothing in the
  store: no session is created, and buffers, subscriber sets and last-access timestamps
  are what they were. So a run of operations ends in the same store with the call as
  without it, wherever in the run the call is made.
\<close>

theorem getBufferedLogs_pure:
  "getBufferedLogs sid st = (case sessions st sid of None \<Rightarrow> [] | Some buffer \<Rightarrow> logs buffer) \<and>
   run [(GetBufferedLogs sid, now)] st = st \<and>
   run (before @ (GetBufferedLogs sid, now) # after) st = run (before @ after) st"
  by (simp add: getBufferedLogs_def run_def)

text \<open>
  C4 as stated fails on the access time: the session was created at time 0, and after a
  call of \<^verbatim>\<open>getBufferedLogs\<close> at time 5000 its \<^verbatim>\<open>lastAccess\<close> is not 5000 (it is
  still 0). The method reads \<^verbatim>\<open>this.sessions\<close> directly and never assigns the field.
\<close>

theorem getBufferedLogs_no_touch_counterexample:
  "last_access ''s1'' (run [(AddLog ''s1'' (example_log ''A''), 0), (GetBufferedLogs ''s1'', 5000)] store_2)
     \<noteq> Some 5000"
  by (simp add: last_access_def store_eval)

subsection \<open>The sweep\<close>

lemma step_ttlMs [simp]: "ttlMs (step x st) = ttlMs st"
proof (cases x)
  case (Pair op now)
  show ?thesis
    by (cases op) (simp_all add: Pair subscribe_def getOrCreateSession_def unsubscribe_def sweep_def Let_def split: option.splits)
qed

lemma run_ttlMs [simp]: "ttlMs (run ops st) = ttlMs st"
  by (induction ops arbitrary: st) (simp_all add: run_Cons)

lemma touch_step: "touches sid (fst x) \<Longrightarrow> last_access sid (step x st) = Some (snd x)"
proof (cases x)
  case (Pair op now)
  assume "touches sid (fst x)"
  with Pair show ?thesis
    by (cases op) (simp_all add: last_access_def addLog_def subscribe_def getOrCreateSession_def Let_def split: option.splits)
qed

lemma untouched_step:
  "\<not> touches sid (fst x) \<Longrightarrow>
   last_access sid (step x st) = None \<or> last_access sid (step x st) = last_access sid st"
proof (cases x)
  case (Pair op now)
  assume "\<not> touches sid (fst x)"
  with Pair show ?thesis
    by (cases op) (auto simp add: last_access_def addLog_def subscribe_def getOrCreateSession_def
        unsubscribe_def sweep_def Let_def split: option.splits)
qed

lemma untouched_quiet_step:
  "\<not> touches sid (fst x) \<Longrightarrow> fst x \<noteq> Sweep \<Longrightarrow> last_access sid (step x st) = last_access sid st"
proof (cases x)
  case (Pair op now)
  assume "\<not> touches sid (fst x)" "fst x \<noteq> Sweep"
  with Pair show ?thesis
    by (cases op) (auto simp add: last_access_def addLog_def subscribe_def getOrCreateSession_def
        unsubscribe_def Let_def split: option.splits)
qed

lemma untouched_run:
  "\<forall>y\<in>set ops. \<not> touches sid (fst y) \<Longrightarrow>
   last_access sid (run ops st) = None \<or> last_access sid (run ops st) = last_access sid st"
proof (induction ops arbitrary: st)
  case Nil
  then show ?case by simp
next
  case (Cons x ops)
  then have x: "\<not> touches sid (fst x)" and rest: "\<forall>y\<in>set ops. \<not> touches sid (fst y)" by simp_all
  from Cons.IH [OF rest, of "step x st"] untouched_step [OF x, of st]
  show ?case by (auto simp add: run_Cons)
qed

lemma untouched_quiet_run:
  "\<forall>y\<in>set ops. \<not> touches sid (fst y) \<and> fst y \<noteq> Sweep \<Longrightarrow>
   last_access sid (run ops st) = last_access sid st"
proof (induction ops arbitrary: st)
  case Nil
  then show ?case by simp
next
  case (Cons x ops)
  then show ?case by (simp add: run_Cons untouched_quiet_step)
qed

lemma last_access_sweep:
  "last_access sid (sweep now st) =
     (case last_access sid st of None \<Rightarrow> None
      | Some t \<Rightarrow> if now - t > ttlMs st then None else Some t)"
  by (simp add: last_access_def sweep_def expired_def split: option.splits)

lemma untouched_bounded_step:
  assumes "\<not> touches sid (fst x)" and "fst x = Sweep \<longrightarrow> snd x - t \<le> ttlMs st"
    and "last_access sid st = Some t"
  shows "last_access sid (step x st) = Some t"
proof (cases "fst x = Sweep")
  case True
  then have "x = (Sweep, snd x)" by (cases x) simp
  then have "step x st = sweep (snd x) st" by (metis step.simps(5))
  with True assms(2,3) show ?thesis by (simp add: last_access_sweep)
next
  case False
  with assms(1,3) show ?thesis by (simp add: untouched_quiet_step)
qed

lemma untouched_bounded_run:
  "\<forall>y\<in>set ops. \<not> touches sid (fst y) \<and> (fst y = Sweep \<longrightarrow> snd y - t \<le> ttlMs st) \<Longrightarrow>
   last_access sid st = Some t \<Longrightarrow> last_access sid (run ops st) = Some t"
proof (induction ops arbitrary: st)
  case Nil
  then show ?case by simp
next
  case (Cons x ops)
  from Cons.prems have "last_access sid (step x st) = Some t"
    by (intro untouched_bounded_step) simp_all
  moreover from Cons.prems(1)
  have "\<forall>y\<in>set ops. \<not> touches sid (fst y) \<and> (fst y = Sweep \<longrightarrow> snd y - t \<le> ttlMs (step x st))"
    by simp
  ultimately show ?case
    using Cons.IH [of "step x st"] by (simp add: run_Cons)
qed

text \<open>
  C5, amended. Let the last \<^verbatim>\<open>addLog\<close> or \<^verbatim>\<open>subscribe\<close> of a session run at time
  \<open>snd x\<close>, followed by operations none of which is an \<^verbatim>\<open>addLog\<close> or \<^verbatim>\<open>subscribe\<close>
  of that session (calls of \<^verbatim>\<open>getBufferedLogs\<close> and earlier sweeps are allowed among
  them). A sweep that runs more than \<open>ttlMs\<close> after that time leaves the session absent
  from the map, buffer and subscribers with it. A sweep that runs at most \<open>ttlMs\<close> after
  it, and finds the session still in the map, leaves it there. And the session is still in
  the map when every earlier sweep ran at most \<open>ttlMs\<close> after that time.
\<close>

theorem sweep_ttl:
  assumes "touches sid (fst x)" and "\<forall>y\<in>set ops. \<not> touches sid (fst y)"
  shows "(now - snd x > ttlMs st \<longrightarrow> sessions (sweep now (run ops (step x st))) sid = None) \<and>
         (sessions (run ops (step x st)) sid \<noteq> None \<and> now - snd x \<le> ttlMs st \<longrightarrow>
            last_access sid (sweep now (run ops (step x st))) = Some (snd x)) \<and>
         ((\<forall>y\<in>set ops. fst y = Sweep \<longrightarrow> snd y - snd x \<le> ttlMs st) \<longrightarrow>
            sessions (run ops (step x st)) sid \<noteq> None)"
proof -
  let ?st = "run ops (step x st)"
  have t: "last_access sid (step x st) = Some (snd x)"
    using assms(1) by (rule touch_step)
  have u: "last_access sid ?st = None \<or> last_access sid ?st = Some (snd x)"
    using untouched_run [OF assms(2), of "step x st"] t by simp
  then have a: "now - snd x > ttlMs st \<longrightarrow> last_access sid (sweep now ?st) = None"
    by (auto simp add: last_access_sweep)
  have b: "sessions ?st sid \<noteq> None \<and> now - snd x \<le> ttlMs st \<longrightarrow>
            last_access sid (sweep now ?st) = Some (snd x)"
  proof
    assume h: "sessions ?st sid \<noteq> None \<and> now - snd x \<le> ttlMs st"
    then have "last_access sid ?st \<noteq> None" by (simp add: last_access_def)
    with u have "last_access sid ?st = Some (snd x)" by simp
    with h show "last_access sid (sweep now ?st) = Some (snd x)"
      by (simp add: last_access_sweep)
  qed
  have c: "(\<forall>y\<in>set ops. fst y = Sweep \<longrightarrow> snd y - snd x \<le> ttlMs st) \<longrightarrow> sessions ?st sid \<noteq> None"
  proof
    assume "\<forall>y\<in>set ops. fst y = Sweep \<longrightarrow> snd y - snd x \<le> ttlMs st"
    with assms(2)
    have "\<forall>y\<in>set ops. \<not> touches sid (fst y) \<and> (fst y = Sweep \<longrightarrow> snd y - snd x \<le> ttlMs (step x st))"
      by simp
    then have "last_access sid ?st = Some (snd x)"
      using t by (rule untouched_bounded_run)
    then show "sessions ?st sid \<noteq> None" by (auto simp add: last_access_def)
  qed
  from a b c show ?thesis by (simp add: last_access_def)
qed

text \<open>
  The scenario "expiry", with the store's timer running: s2 is created by one
  \<^verbatim>\<open>addLog\<close> at time 0 with a time to live of 60 s; it is read at 20 s, and the sweep at
  30 s finds it in use. The sweep at 60 s keeps it as well, a sweep at 90 s deletes it.
\<close>

theorem sweep_ttl_witness:
  "touches ''s2'' (fst (AddLog ''s2'' (example_log ''A''), 0)) \<and>
   90000 - 0 > ttlMs store_2 \<and> 60000 - 0 \<le> ttlMs store_2 \<and>
   sessions (run ops_idle (step (AddLog ''s2'' (example_log ''A''), 0) store_2)) ''s2'' \<noteq> None \<and>
   sessions (sweep 90000 (run ops_idle (step (AddLog ''s2'' (example_log ''A''), 0) store_2))) ''s2'' = None \<and>
   last_access ''s2'' (sweep 60000 (run ops_idle (step (AddLog ''s2'' (example_log ''A''), 0) store_2))) = Some 0"
proof -
  have a: "touches ''s2'' (fst (AddLog ''s2'' (example_log ''A''), 0::int))" by simp
  have b: "\<forall>y\<in>set ops_idle. \<not> touches ''s2'' (fst y)" by (simp add: ops_idle_def)
  have c: "\<forall>y\<in>set ops_idle. fst y = Sweep \<longrightarrow> snd y - snd (AddLog ''s2'' (example_log ''A''), 0::int) \<le> ttlMs store_2"
    by (simp add: ops_idle_def store_2_def new_store_def)
  have d: "ttlMs store_2 = 60000" by (simp add: store_2_def new_store_def)
  from sweep_ttl [OF a b, where now = 90000 and st = store_2] d
  have e: "sessions (sweep 90000 (run ops_idle (step (AddLog ''s2'' (example_log ''A''), 0) store_2))) ''s2'' = None"
    by simp
  from sweep_ttl [OF a b, where now = 60000 and st = store_2] c
  have f: "sessions (run ops_idle (step (AddLog ''s2'' (example_log ''A''), 0) store_2)) ''s2'' \<noteq> None"
    by blast
  from sweep_ttl [OF a b, where now = 60000 and st = store_2] f d
  have g: "last_access ''s2'' (sweep 60000 (run ops_idle (step (AddLog ''s2'' (example_log ''A''), 0) store_2))) = Some 0"
    by simp
  from a d e f g show ?thesis by simp
qed

text \<open>
  C5 as stated fails for a session touched by \<^verbatim>\<open>getBufferedLogs\<close>: created at time 0 and
  read at 50000 ms, the session is deleted by the sweep at 90000 ms, 40000 ms after the read
  and so within the 60000 ms of its time to live.
\<close>

theorem getBufferedLogs_then_sweep_counterexample:
  "sessions (run [(AddLog ''s1'' (example_log ''A''), 0), (GetBufferedLogs ''s1'', 50000), (Sweep, 90000)] store_2) ''s1''
     = None"
  by (simp add: store_eval)

section \<open>Properties of the server-side interceptor\<close>

lemma notify_with_quiet:
  "\<forall>c\<in>set subs. throws c = None \<Longrightarrow> notify_with throws subs log trace = (None, notify subs log trace)"
  by (induction subs arbitrary: trace) simp_all

lemma addLog_with_quiet:
  assumes "\<forall>c\<in>set (subscribers_of sid st). throws c = None"
  shows "addLog_with throws sid log now st = (None, addLog sid log now st)"
proof (cases "sessions st sid")
  case None
  then show ?thesis
    by (simp add: addLog_with_def addLog_def getOrCreateSession_def Let_def)
next
  case (Some buffer)
  with assms have "\<forall>c\<in>set (subscribers buffer). throws c = None"
    by (simp add: subscribers_of_def)
  then have "notify_with throws (subscribers buffer) log (delivered st) =
               (None, notify (subscribers buffer) log (delivered st))"
    by (rule notify_with_quiet)
  with Some show ?thesis
    by (simp add: addLog_with_def addLog_def getOrCreateSession_def Let_def)
qed

text \<open>When no subscriber throws, the wrapper is \<open>netviewFetch\<close>.\<close>

lemma netviewFetch_with_quiet:
  assumes "\<forall>c. throws c = None"
  shows "netviewFetch_with throws cenv originalFetch env input init store =
           netviewFetch originalFetch env input init store"
proof -
  have "addLog_with throws sid log now st = (None, addLog sid log now st)" for sid log now st
    using assms by (intro addLog_with_quiet) simp
  then show ?thesis
    by (simp add: netviewFetch_with_def netviewFetch_def catch_block_def Let_def
        split: option.splits sum.splits)
qed

text \<open>
  C6, amended. When a non-empty session id is resolved, the URL does not contain
  \<^verbatim>\<open>/__netview/\<close>, the original fetch rejects, and no subscriber of the session throws
  while the record is delivered, the wrapper rejects with the same value, and the store
  afterwards is the store before with one \<^verbatim>\<open>addLog\<close> of a record under that session:
  status 0, status text \<^verbatim>\<open>Error\<close>, no response headers, no response body, the message of
  the error, and as duration the difference of the two clock readings. The duration is not
  negative when the clock did not go back between the readings.
\<close>

theorem netviewFetch_failure:
  assumes "getSessionId (env_cookies env) = Some session" and "session \<noteq> []"
    and "\<not> str_includes ''/__netview/'' (url_of input)"
    and "originalFetch input init = Inl err"
    and "\<forall>c\<in>set (subscribers_of session store). throws c = None"
  shows "\<exists>log. netviewFetch_with throws cenv originalFetch env input init store =
                 (Inl err, addLog session log (env_logTime env) store) \<and>
               status log = 0 \<and> statusText log = ''Error'' \<and> responseHeaders log = [] \<and>
               responseBody log = None \<and> error log = Some (message_of err) \<and>
               duration log = env_endTime env - env_startTime env \<and>
               (env_startTime env \<le> env_endTime env \<longrightarrow> 0 \<le> duration log)"
proof -
  let ?log = "\<lparr> log_id = env_id env, sessionId = session, timestamp = env_startTime env,
                http_method = method_of init, url = url_of input,
                requestHeaders = requestHeaders_of init, requestBody = requestBody_of init,
                status = 0, statusText = ''Error'', responseHeaders = [], responseBody = None,
                duration = env_endTime env - env_startTime env, error = Some (message_of err) \<rparr>"
  have q: "addLog_with throws session ?log (env_logTime env) store =
             (None, addLog session ?log (env_logTime env) store)"
    using assms(5) by (rule addLog_with_quiet)
  have "netviewFetch_with throws cenv originalFetch env input init store =
          (Inl err, addLog session ?log (env_logTime env) store)"
    using assms(1-4) by (simp add: netviewFetch_with_def catch_block_def Let_def q)
  then show ?thesis
    by (intro exI [of _ ?log]) simp
qed

text \<open>
  A failing call to http://api/users under session s1, while callback 8 is subscribed to
  s1 and returns normally (callback 7, which would throw, is not subscribed): the wrapper
  rejects with the error of the fetch, and the buffer of s1 holds the one error record, of
  duration 250 ms.
\<close>

theorem netviewFetch_failure_witness:
  "getSessionId (env_cookies env_s1) = Some ''s1'' \<and>
   \<not> str_includes ''/__netview/'' (url_of (InputString ''http://api/users'')) \<and>
   env_startTime env_s1 \<le> env_endTime env_s1 \<and>
   fst (netviewFetch_with closed_7 cenv_0 fetch_fails env_s1 (InputString ''http://api/users'') None
          (snd (subscribe ''s1'' 8 0 store_2))) = Inl (Error ''fetch failed'') \<and>
   map (\<lambda>log. (status log, statusText log, responseHeaders log, responseBody log, error log, duration log))
     (getBufferedLogs ''s1'' (snd (netviewFetch_with closed_7 cenv_0 fetch_fails env_s1
          (InputString ''http://api/users'') None (snd (subscribe ''s1'' 8 0 store_2))))) =
     [(0, ''Error'', [], None, Some ''fetch failed'', 250)]"
proof -
  let ?store = "snd (subscribe ''s1'' 8 0 store_2)"
  have a: "getSessionId (env_cookies env_s1) = Some ''s1''"
    by (simp add: getSessionId_def env_s1_def COOKIE_NAME_def)
  have b: "''s1'' \<noteq> []" by simp
  have c: "\<not> str_includes ''/__netview/'' (url_of (InputString ''http://api/users''))" by simp
  have d: "fetch_fails (InputString ''http://api/users'') None = Inl (Error ''fetch failed'')"
    by (simp add: fetch_fails_def)
  have s: "subscribers_of ''s1'' ?store = [8]"
    by (simp add: store_eval)
  have q: "\<forall>c\<in>set (subscribers_of ''s1'' ?store). closed_7 c = None"
    by (simp add: s closed_7_def)
  have e: "env_startTime env_s1 \<le> env_endTime env_s1" by (simp add: env_s1_def)
  have f: "getBufferedLogs ''s1'' ?store = []" "maxLogsPerSession ?store = Finite 2 0"
    by (simp_all add: store_eval)
  have g: "env_endTime env_s1 - env_startTime env_s1 = 250" by (simp add: env_s1_def)
  from netviewFetch_failure [where originalFetch = fetch_fails and init = None and store = ?store
      and throws = closed_7 and cenv = cenv_0, OF a b c d q]
    a c e show ?thesis
    by (auto simp add: addLog_logs f g)
qed

text \<open>
  C6 as stated fails in three ways. For a call to the streaming endpoint's own path, with
  the session id s1 resolved and the fetch rejecting, the wrapper rejects with the same
  error and no record is added (line 64 returns the original fetch before anything is
  recorded). When the clock went back by 100 ms between the two readings, the error record
  has the duration -100. And when callback 7, subscribed to s1, throws while the error
  record is delivered, the wrapper rejects with what the callback threw, not with the
  error of the fetch (\<^verbatim>\<open>store.addLog\<close> runs before \<^verbatim>\<open>throw error\<close>).
\<close>

theorem netviewFetch_failure_counterexample:
  "fst (netviewFetch_with quiet cenv_0 fetch_fails env_s1
          (InputString ''http://localhost:3000/api/__netview/stream'') None store_2)
     = Inl (Error ''fetch failed'') \<and>
   getBufferedLogs ''s1'' (snd (netviewFetch_with quiet cenv_0 fetch_fails env_s1
      (InputString ''http://localhost:3000/api/__netview/stream'') None store_2)) = [] \<and>
   map duration (getBufferedLogs ''s1'' (snd (netviewFetch_with quiet cenv_0 fetch_fails env_back
      (InputString ''http://api/users'') None store_2))) = [- 100] \<and>
   fst (netviewFetch_with closed_7 cenv_0 fetch_fails env_s1 (InputString ''http://api/users'') None
          (snd (subscribe ''s1'' 7 0 store_2)))
     = Inl (Error ''Invalid state: Controller is already closed'')"
proof -
  have a: "fst (netviewFetch_with quiet cenv_0 fetch_fails env_s1
          (InputString ''http://localhost:3000/api/__netview/stream'') None store_2)
     = Inl (Error ''fetch failed'')"
    by (simp add: netviewFetch_with_def getSessionId_def env_s1_def COOKIE_NAME_def fetch_fails_def)
  have b: "getBufferedLogs ''s1'' (snd (netviewFetch_with quiet cenv_0 fetch_fails env_s1
      (InputString ''http://localhost:3000/api/__netview/stream'') None store_2)) = []"
    by (simp add: netviewFetch_with_def getSessionId_def env_s1_def COOKIE_NAME_def fetch_fails_def
        store_2_def new_store_def getBufferedLogs_def)
  have c: "map duration (getBufferedLogs ''s1'' (snd (netviewFetch_with quiet cenv_0 fetch_fails env_back
      (InputString ''http://api/users'') None store_2))) = [- 100]"
    by (simp add: netviewFetch_with_def catch_block_def addLog_with_def getOrCreateSession_def
        getSessionId_def env_back_def COOKIE_NAME_def fetch_fails_def quiet_def
        store_2_def new_store_def getBufferedLogs_def Let_def)
  have d: "fst (netviewFetch_with closed_7 cenv_0 fetch_fails env_s1 (InputString ''http://api/users'') None
          (snd (subscribe ''s1'' 7 0 store_2)))
     = Inl (Error ''Invalid state: Controller is already closed'')"
    by (simp add: netviewFetch_with_def catch_block_def addLog_with_def getOrCreateSession_def
        getSessionId_def env_s1_def COOKIE_NAME_def fetch_fails_def closed_7_def subscribe_def
        store_2_def new_store_def Let_def)
  from a b c d show ?thesis by simp
qed

text \<open>
  C7. When \<^verbatim>\<open>getSessionId\<close> gives no session id (\<^verbatim>\<open>null\<close> or the empty string, which
  \<^verbatim>\<open>!sessionId\<close> treats alike), the wrapper settles exactly as the original fetch does on
  the same arguments, resolved or rejected, and the store is unchanged. A failure of
  \<^verbatim>\<open>cookies()\<close> is such a case: \<^verbatim>\<open>getSessionId\<close> catches it and returns \<^verbatim>\<open>null\<close>.
\<close>

theorem netviewFetch_passthrough:
  assumes "no_session (getSessionId (env_cookies env))"
  shows "netviewFetch originalFetch env input init store = (originalFetch input init, store) \<and>
         no_session (getSessionId (Inl e))"
  using assms by (simp add: netviewFetch_def no_session_def getSessionId_def split: option.splits)

text \<open>
  Outside a request scope \<^verbatim>\<open>cookies()\<close> throws: a failing fetch fails the same way, a
  successful one returns the same response, and the store stays as it is.
\<close>

theorem netviewFetch_passthrough_witness:
  "no_session (getSessionId (env_cookies env_none)) \<and>
   netviewFetch fetch_fails env_none (InputString ''http://api/users'') post_form store_2 =
     (Inl (Error ''fetch failed''), store_2) \<and>
   netviewFetch fetch_ok env_none (InputString ''http://api/users'') post_form store_2 =
     (fetch_ok (InputString ''http://api/users'') post_form, store_2)"
proof -
  have a: "no_session (getSessionId (env_cookies env_none))"
    by (simp add: no_session_def getSessionId_def env_none_def)
  from netviewFetch_passthrough [OF a, of fetch_fails "InputString ''http://api/users''" post_form store_2]
    netviewFetch_passthrough [OF a, of fetch_ok "InputString ''http://api/users''" post_form store_2] a
  show ?thesis by (simp add: fetch_fails_def)
qed

text \<open>
  C8, amended. For every intercepted call (a non-empty session id, a URL that is not the
  endpoint's own), whether the fetch resolves or rejects, the one record added has as request
  body: nothing when there is no body or the body is the empty string; the string itself
  when the body is a non-empty string; the sentinel \<^verbatim>\<open>[FormData]\<close> when it is a
  \<^verbatim>\<open>FormData\<close>; the stringified parameters when it is a \<^verbatim>\<open>URLSearchParams\<close>; and the
  sentinel \<^verbatim>\<open>[Binary Data]\<close> otherwise.
\<close>

theorem netviewFetch_requestBody:
  assumes "getSessionId (env_cookies env) = Some session" and "session \<noteq> []"
    and "\<not> str_includes ''/__netview/'' (url_of input)"
  shows "\<exists>log. snd (netviewFetch originalFetch env input init store) =
                 addLog session log (env_logTime env) store \<and>
               requestBody log =
                 (case Option.bind init init_body of
                    None \<Rightarrow> None
                  | Some (BodyString s) \<Rightarrow> if s = [] then None else Some s
                  | Some (BodyFormData entries) \<Rightarrow> Some ''[FormData]''
                  | Some (BodyURLSearchParams text) \<Rightarrow> Some text
                  | Some BodyOther \<Rightarrow> Some ''[Binary Data]'')"
proof -
  have r: "requestBody_of init =
             (case Option.bind init init_body of
                None \<Rightarrow> None
              | Some (BodyString s) \<Rightarrow> if s = [] then None else Some s
              | Some (BodyFormData entries) \<Rightarrow> Some ''[FormData]''
              | Some (BodyURLSearchParams text) \<Rightarrow> Some text
              | Some BodyOther \<Rightarrow> Some ''[Binary Data]'')"
    by (simp add: requestBody_of_def split: option.splits body_init.splits)
  show ?thesis
  proof (cases "originalFetch input init")
    case (Inl err)
    let ?log = "\<lparr> log_id = env_id env, sessionId = session, timestamp = env_startTime env,
                  http_method = method_of init, url = url_of input,
                  requestHeaders = requestHeaders_of init, requestBody = requestBody_of init,
                  status = 0, statusText = ''Error'', responseHeaders = [], responseBody = None,
                  duration = env_endTime env - env_startTime env, error = Some (message_of err) \<rparr>"
    from Inl assms have "snd (netviewFetch originalFetch env input init store) =
                           addLog session ?log (env_logTime env) store"
      by (simp add: netviewFetch_def Let_def)
    then show ?thesis
      by (intro exI [of _ ?log]) (simp add: r)
  next
    case (Inr response)
    let ?log = "\<lparr> log_id = env_id env, sessionId = session, timestamp = env_startTime env,
                  http_method = method_of init, url = url_of input,
                  requestHeaders = requestHeaders_of init, requestBody = requestBody_of init,
                  status = resp_status response, statusText = resp_statusText response,
                  responseHeaders = headersToRecord (resp_headers response),
                  responseBody = (case resp_text response of
                                    Inl e \<Rightarrow> Some ''[Unable to read body]''
                                  | Inr text \<Rightarrow> Some text),
                  duration = env_endTime env - env_startTime env, error = None \<rparr>"
    from Inr assms have "snd (netviewFetch originalFetch env input init store) =
                           addLog session ?log (env_logTime env) store"
      by (simp add: netviewFetch_def Let_def)
    then show ?thesis
      by (intro exI [of _ ?log]) (simp add: r)
  qed
qed

text \<open>
  A POST with a JSON string as body is recorded with that string.
\<close>

theorem netviewFetch_requestBody_witness:
  "getSessionId (env_cookies env_s1) = Some ''s1'' \<and>
   \<not> str_includes ''/__netview/'' (url_of (InputString ''http://api/users'')) \<and>
   map requestBody (getBufferedLogs ''s1''
     (snd (netviewFetch fetch_ok env_s1 (InputString ''http://api/users'')
        (Some \<lparr> init_method = Some ''POST'', init_headers = None, init_body = Some (BodyString ''{\"a\":1}'') \<rparr>)
        store_2))) = [Some ''{\"a\":1}'']"
proof -
  have a: "getSessionId (env_cookies env_s1) = Some ''s1''"
    by (simp add: getSessionId_def env_s1_def COOKIE_NAME_def)
  have b: "''s1'' \<noteq> []" by simp
  have c: "\<not> str_includes ''/__netview/'' (url_of (InputString ''http://api/users''))" by simp
  have f: "getBufferedLogs ''s1'' store_2 = []" "maxLogsPerSession store_2 = Finite 2 0"
    by (simp_all add: store_2_def new_store_def getBufferedLogs_def)
  from netviewFetch_requestBody [OF a b c, where originalFetch = fetch_ok and store = store_2 and init =
      "Some \<lparr> init_method = Some ''POST'', init_headers = None, init_body = Some (BodyString ''{\"a\":1}'') \<rparr>"]
    a c show ?thesis
    by (auto simp add: addLog_logs f)
qed

text \<open>
  C8 as stated fails for form data: for the entries a = 1 and b = 2 the recorded request
  body is not the two lines \<^verbatim>\<open>a: 1\<close> and \<^verbatim>\<open>b: 2\<close> (it is the sentinel \<^verbatim>\<open>[FormData]\<close>).
\<close>

theorem netviewFetch_formdata_counterexample:
  "map requestBody (getBufferedLogs ''s1''
     (snd (netviewFetch fetch_ok env_s1 (InputString ''http://api/users'') post_form store_2)))
   \<noteq> [Some (form_lines [(''a'', ''1''), (''b'', ''2'')])]"
proof -
  have f: "getBufferedLogs ''s1'' store_2 = []" "maxLogsPerSession store_2 = Finite 2 0"
    by (simp_all add: store_2_def new_store_def getBufferedLogs_def)
  show ?thesis
    by (simp add: netviewFetch_def getSessionId_def env_s1_def COOKIE_NAME_def fetch_ok_def post_form_def
        requestBody_of_def Let_def addLog_logs f)
qed

subsection \<open>Passthrough and request body with subscribers that throw\<close>

text \<open>
  The passthrough and the request-body snapshot do not depend on what the subscribers do.
  Without a session id the wrapper with throwing subscribers is the original fetch as
  well. On an intercepted call a throwing subscriber can make the wrapper record twice
  (the record of the response, then an error record from the \<^verbatim>\<open>catch\<close>); every record
  the call leaves in the session's buffer has the request body of the table above.
\<close>

lemma netviewFetch_with_passthrough:
  "no_session (getSessionId (env_cookies env)) \<Longrightarrow>
   netviewFetch_with throws cenv originalFetch env input init store = (originalFetch input init, store)"
  by (simp add: netviewFetch_with_def no_session_def split: option.splits)

lemma addLog_with_logs:
  "getBufferedLogs sid' (snd (addLog_with throws sid log now st)) = getBufferedLogs sid' (addLog sid log now st)"
  by (simp add: addLog_with_def addLog_def getOrCreateSession_def getBufferedLogs_def Let_def
      split: option.splits prod.splits)

lemma addLog_logs_subset:
  "set (getBufferedLogs sid (addLog sid log now st)) \<subseteq> insert log (set (getBufferedLogs sid st))"
proof -
  have "set (tl xs) \<subseteq> set xs" for xs :: "ServerFetchLog list"
    by (cases xs) auto
  then show ?thesis by (auto simp add: addLog_logs)
qed

lemma catch_block_logs:
  assumes "catch_block throws session env input init err endTime logTime store = (result, store')"
  shows "\<forall>log\<in>set (getBufferedLogs session store').
           log \<in> set (getBufferedLogs session store) \<or> requestBody log = requestBody_of init"
proof -
  let ?log = "\<lparr> log_id = env_id env, sessionId = session, timestamp = env_startTime env,
                http_method = method_of init, url = url_of input,
                requestHeaders = requestHeaders_of init, requestBody = requestBody_of init,
                status = 0, statusText = ''Error'', responseHeaders = [], responseBody = None,
                duration = endTime - env_startTime env, error = Some (message_of err) \<rparr>"
  from assms have "store' = snd (addLog_with throws session ?log logTime store)"
    by (auto simp add: catch_block_def Let_def split: prod.splits option.splits)
  then have "getBufferedLogs session store' = getBufferedLogs session (addLog session ?log logTime store)"
    by (simp add: addLog_with_logs)
  with addLog_logs_subset [of session ?log logTime store] show ?thesis by auto
qed

lemma netviewFetch_with_requestBody:
  assumes "getSessionId (env_cookies env) = Some session" and "session \<noteq> []"
    and "\<not> str_includes ''/__netview/'' (url_of input)"
  shows "\<forall>log\<in>set (getBufferedLogs session (snd (netviewFetch_with throws cenv originalFetch env input init store))).
           log \<in> set (getBufferedLogs session store) \<or> requestBody log = requestBody_of init"
proof (cases "originalFetch input init")
  case (Inl err)
  obtain result store' where c: "catch_block throws session env input init err (env_endTime env) (env_logTime env) store = (result, store')"
    by (cases "catch_block throws session env input init err (env_endTime env) (env_logTime env) store")
  from Inl assms c have "snd (netviewFetch_with throws cenv originalFetch env input init store) = store'"
    by (simp add: netviewFetch_with_def)
  with catch_block_logs [OF c] show ?thesis by simp
next
  case (Inr response)
  let ?log = "\<lparr> log_id = env_id env, sessionId = session, timestamp = env_startTime env,
                http_method = method_of init, url = url_of input,
                requestHeaders = requestHeaders_of init, requestBody = requestBody_of init,
                status = resp_status response, statusText = resp_statusText response,
                responseHeaders = headersToRecord (resp_headers response),
                responseBody = (case resp_text response of
                                  Inl e \<Rightarrow> Some ''[Unable to read body]''
                                | Inr text \<Rightarrow> Some text),
                duration = env_endTime env - env_startTime env, error = None \<rparr>"
  obtain t store1 where a: "addLog_with throws session ?log (env_logTime env) store = (t, store1)"
    by (cases "addLog_with throws session ?log (env_logTime env) store")
  then have "getBufferedLogs session store1 = getBufferedLogs session (addLog session ?log (env_logTime env) store)"
    using addLog_with_logs [of session throws session ?log "env_logTime env" store] by simp
  with addLog_logs_subset [of session ?log "env_logTime env" store]
  have one: "\<forall>log\<in>set (getBufferedLogs session store1).
           log \<in> set (getBufferedLogs session store) \<or> requestBody log = requestBody_of init"
    by auto
  show ?thesis
  proof (cases t)
    case None
    with Inr assms a have "snd (netviewFetch_with throws cenv originalFetch env input init store) = store1"
      by (simp add: netviewFetch_with_def Let_def)
    with one show ?thesis by simp
  next
    case (Some thrown)
    obtain result store2 where c: "catch_block throws session env input init thrown
        (env_catchTime cenv) (env_catchLogTime cenv) store1 = (result, store2)"
      by (cases "catch_block throws session env input init thrown (env_catchTime cenv) (env_catchLogTime cenv) store1")
    from Some Inr assms a c
    have "snd (netviewFetch_with throws cenv originalFetch env input init store) = store2"
      by (simp add: netviewFetch_with_def Let_def)
    with catch_block_logs [OF c] one show ?thesis by auto
  qed
qed

section \<open>Properties of the streaming endpoint\<close>

lemma subscribe_sent:
  "drop (length (received send store)) (received send (snd (subscribe sid send now store))) =
     getBufferedLogs sid store"
  by (simp add: received_def subscribe_delivered filter_map comp_def)

text \<open>
  With a store installed, the stream opens with the comment frame, then one data frame per
  record of the session's buffer, oldest first, and stays open; the store has subscribed
  the closure \<^verbatim>\<open>send\<close>.
\<close>

lemma GET_initialized:
  assumes "sid \<noteq> []"
  shows "GET (Some sid) send now (Some store) =
           (EventStream \<lparr> frames = Comment ''connected'' # map Data (getBufferedLogs sid store),
                          closed = False \<rparr> (Some (fst (subscribe sid send now store))),
            Some (snd (subscribe sid send now store)))"
  using assms subscribe_sent [of send store sid now]
  by (simp add: GET_def getStore_def Let_def case_prod_beta)

text \<open>
  C9. For a request with a non-empty session parameter when no store was ever installed:
  \<^verbatim>\<open>getStore\<close> throws, the \<^verbatim>\<open>catch\<close> of \<^verbatim>\<open>start\<close> handles it, and the response is an
  event stream whose frames are the comment frame and one data frame, the object with the
  field \<^verbatim>\<open>error\<close>, after which the stream is closed; there is no unsubscribe closure and
  no store. With a store installed and a session id the store does not know, the stream
  holds the comment frame only and stays open, and the store has created the session, with
  an empty buffer and the closure \<^verbatim>\<open>send\<close> as its subscriber.
\<close>

theorem GET_not_initialized:
  assumes "sid \<noteq> []"
  shows "GET (Some sid) send now None =
           (EventStream \<lparr> frames = [Comment ''connected'', DataError ''NetView not initialized''],
                          closed = True \<rparr> None, None) \<and>
         filter is_data [Comment ''connected'', DataError ''NetView not initialized''] =
           [DataError ''NetView not initialized''] \<and>
         (sessions store sid = None \<longrightarrow>
            (\<exists>h store'. GET (Some sid) send now (Some store) =
                 (EventStream \<lparr> frames = [Comment ''connected''], closed = False \<rparr> (Some h), Some store') \<and>
               getBufferedLogs sid store' = [] \<and> subscribers_of sid store' = [send]))"
proof -
  have a: "GET (Some sid) send now None =
           (EventStream \<lparr> frames = [Comment ''connected'', DataError ''NetView not initialized''],
                          closed = True \<rparr> None, None)"
    using assms by (simp add: GET_def getStore_def)
  have b: "sessions store sid = None \<longrightarrow>
            (\<exists>h store'. GET (Some sid) send now (Some store) =
                 (EventStream \<lparr> frames = [Comment ''connected''], closed = False \<rparr> (Some h), Some store') \<and>
               getBufferedLogs sid store' = [] \<and> subscribers_of sid store' = [send])"
  proof
    assume n: "sessions store sid = None"
    then have e: "getBufferedLogs sid store = []" "subscribers_of sid store = []"
      by (simp_all add: getBufferedLogs_def subscribers_of_def)
    let ?store = "snd (subscribe sid send now store)"
    have "getBufferedLogs sid ?store = []"
      using e by (simp add: subscribe_logs)
    moreover have "subscribers_of sid ?store = [send]"
      using e by (simp add: subscribers_of_subscribe)
    ultimately show "\<exists>h store'. GET (Some sid) send now (Some store) =
                 (EventStream \<lparr> frames = [Comment ''connected''], closed = False \<rparr> (Some h), Some store') \<and>
               getBufferedLogs sid store' = [] \<and> subscribers_of sid store' = [send]"
      using GET_initialized [OF assms, of send now store] e by simp
  qed
  from a b show ?thesis by simp
qed

text \<open>
  The request for session s1 without a store, and with a fresh store.
\<close>

theorem GET_not_initialized_witness:
  "fst (GET (Some ''s1'') 7 0 None) =
     EventStream \<lparr> frames = [Comment ''connected'', DataError ''NetView not initialized''], closed = True \<rparr> None \<and>
   sessions store_2 ''s1'' = None \<and>
   fst (GET (Some ''s1'') 7 0 (Some store_2)) =
     EventStream \<lparr> frames = [Comment ''connected''], closed = False \<rparr>
       (Some \<lparr> h_session = ''s1'', h_buf = 0, h_cb = 7 \<rparr>)"
proof -
  have a: "''s1'' \<noteq> []" by simp
  have b: "sessions store_2 ''s1'' = None" by (simp add: store_2_def new_store_def)
  have c: "fst (subscribe ''s1'' 7 0 store_2) = \<lparr> h_session = ''s1'', h_buf = 0, h_cb = 7 \<rparr>"
    by (simp add: store_eval)
  have d: "GET (Some ''s1'') 7 0 (Some store_2) =
           (EventStream \<lparr> frames = Comment ''connected'' # map Data (getBufferedLogs ''s1'' store_2),
                          closed = False \<rparr> (Some (fst (subscribe ''s1'' 7 0 store_2))),
            Some (snd (subscribe ''s1'' 7 0 store_2)))"
    using a by (rule GET_initialized)
  from GET_not_initialized [OF a, of 7 0 store_2] b show ?thesis
    by (auto simp add: c d)
qed

section \<open>Properties of the client aggregator\<close>

lemma get_prop_error:
  "get_prop (json_of_log log) ''error'' = map_option JStr (error log)"
  by (simp add: json_of_log_def split: option.splits)

text \<open>
  C10, amended. Whatever frame arrives, the handler leaves the collection as it is or
  appends one record, of source \<^verbatim>\<open>server\<close> and state \<^verbatim>\<open>completed\<close>: the state
  \<^verbatim>\<open>error\<close> is never given to a server record. Every decoded frame whose \<^verbatim>\<open>error\<close>
  field is truthy is dropped by the test of line 41 before the conversion. The frame of a
  failed server call carries the error message in that field, so with a message that is
  not the empty string it is dropped and nothing is appended.
\<close>

theorem onmessage_completed_only:
  "(onmessage to_string parsed requests = requests \<or>
    (\<exists>r. onmessage to_string parsed requests = requests @ [r] \<and>
         nr_state r = Completed \<and> nr_source r = Server)) \<and>
   (truthy (get_prop frame ''error'') \<longrightarrow> onmessage to_string (Some frame) requests = requests) \<and>
   (error log = Some message \<and> message \<noteq> [] \<longrightarrow>
      onmessage to_string (Some (json_of_log log)) requests = requests)"
proof -
  have a: "onmessage to_string parsed requests = requests \<or>
    (\<exists>r. onmessage to_string parsed requests = requests @ [r] \<and>
         nr_state r = Completed \<and> nr_source r = Server)"
  proof (cases parsed)
    case None
    then show ?thesis by (simp add: onmessage_def)
  next
    case (Some v)
    then show ?thesis
      by (cases v) (simp_all add: onmessage_def)
  qed
  have t: "truthy (get_prop v ''error'') \<longrightarrow> onmessage to_string (Some v) requests = requests" for v
    by (cases v) (simp_all add: onmessage_def)
  have b: "error log = Some message \<and> message \<noteq> [] \<longrightarrow>
      onmessage to_string (Some (json_of_log log)) requests = requests"
  proof
    assume "error log = Some message \<and> message \<noteq> []"
    then have "truthy (get_prop (json_of_log log) ''error'')"
      by (simp add: get_prop_error)
    with t show "onmessage to_string (Some (json_of_log log)) requests = requests"
      by blast
  qed
  from a t b show ?thesis by simp
qed

text \<open>
  The frame of a failed call with the message \<^verbatim>\<open>fetch failed\<close> is dropped; the frame of
  a successful call is appended as a completed server record.
\<close>

theorem onmessage_completed_only_witness:
  "error failed_log = Some ''fetch failed'' \<and>
   truthy (get_prop (json_of_log failed_log) ''error'') \<and>
   onmessage (\<lambda>v. ''x'') (Some (json_of_log failed_log)) [] = [] \<and>
   map (\<lambda>r. (nr_id r, nr_state r, nr_source r, nr_status r))
     (onmessage (\<lambda>v. ''x'') (Some (json_of_log (example_log ''A''))) []) =
     [(''server-x'', Completed, Server, Some (JNum 200))]"
proof -
  have e: "error failed_log = Some ''fetch failed'' \<and> ''fetch failed'' \<noteq> []"
    by (simp add: failed_log_def)
  have t: "truthy (get_prop (json_of_log failed_log) ''error'')"
    by (simp add: get_prop_error failed_log_def)
  have s: "map (\<lambda>r. (nr_id r, nr_state r, nr_source r, nr_status r))
     (onmessage (\<lambda>v. ''x'') (Some (json_of_log (example_log ''A''))) []) =
     [(''server-x'', Completed, Server, Some (JNum 200))]"
    by (simp add: onmessage_def json_of_log_def example_log_def json_of_headers_def json_of_body_def)
  from onmessage_completed_only [of "\<lambda>v. ''x''" "Some (json_of_log failed_log)" "[]"
      "json_of_log failed_log" failed_log "''fetch failed''"]
    e t s show ?thesis by simp
qed

text \<open>
  C10 as stated fails for a failed call whose error has the empty message. The fetch
  rejects with \<^verbatim>\<open>new Error('')\<close> under session s1; the wrapper records the call with
  status 0 and the error field \<^verbatim>\<open>''\<close>. The frame of that record carries an error field,
  yet the empty string is falsy, the test of line 41 does not return, and the failed call
  is appended to the collection, as a completed server record of status 0.
\<close>

theorem onmessage_empty_message_counterexample:
  "map error (getBufferedLogs ''s1'' (snd (netviewFetch fetch_fails_silent env_s1
      (InputString ''http://api/users'') None store_2))) = [Some []] \<and>
   map (\<lambda>r. (nr_state r, nr_source r, nr_status r, nr_error r))
     (onmessage (\<lambda>v. ''x'') (Some (json_of_log (hd (getBufferedLogs ''s1'' (snd (netviewFetch fetch_fails_silent
        env_s1 (InputString ''http://api/users'') None store_2)))))) []) =
     [(Completed, Server, Some (JNum 0), Some (JStr []))]"
proof -
  have f: "getBufferedLogs ''s1'' store_2 = []" "maxLogsPerSession store_2 = Finite 2 0"
    by (simp_all add: store_2_def new_store_def getBufferedLogs_def)
  have l: "getBufferedLogs ''s1'' (snd (netviewFetch fetch_fails_silent env_s1
      (InputString ''http://api/users'') None store_2)) =
      [\<lparr> log_id = ''1700000000000-abc'', sessionId = ''s1'', timestamp = 1000, http_method = ''GET'',
         url = ''http://api/users'', requestHeaders = [], requestBody = None, status = 0,
         statusText = ''Error'', responseHeaders = [], responseBody = None, duration = 250,
         error = Some [] \<rparr>]"
    by (simp add: netviewFetch_def getSessionId_def env_s1_def COOKIE_NAME_def fetch_fails_silent_def
        method_of_def requestHeaders_of_def requestBody_of_def Let_def addLog_logs f)
  show ?thesis
    unfolding l by (simp add: onmessage_def json_of_log_def json_of_headers_def json_of_body_def)
qed

end
